theory Spec2Isabelle
  imports Main "HOL-Library.AList"
begin

section \<open>Paths and file names\<close>

text \<open>
  A path is the list of its components, read from the root directory. The working
  directory is taken to be the root, so a relative and an absolute path string with the
  same components name the same place. Components are kept as written: \<open>.\<close> and \<open>..\<close>
  are resolved by the file system, not by the path functions.

  \<open>os.path.join(folder, s)\<close> keeps the folder unless \<open>s\<close> is absolute, and \<open>s\<close>
  contributes the components between its separators; an empty component (a doubled or a
  trailing separator, the empty string) names nothing. \<open>os.path.dirname\<close> drops the last
  component.
\<close>

type_synonym path = "string list"

fun split_sep :: "string \<Rightarrow> string list" where
  "split_sep [] = [[]]"
| "split_sep (c # cs) =
     (if c = CHR ''/'' then [] # split_sep cs
      else (case split_sep cs of [] \<Rightarrow> [[c]] | w # ws \<Rightarrow> (c # w) # ws))"

definition components :: "string \<Rightarrow> path" where
  "components s = filter (\<lambda>c. c \<noteq> []) (split_sep s)"

definition os_path_join :: "path \<Rightarrow> string \<Rightarrow> path" where
  "os_path_join p s =
     (case s of
        [] \<Rightarrow> p
      | c # cs \<Rightarrow> if c = CHR ''/'' then components s else p @ components s)"

definition os_path_dirname :: "path \<Rightarrow> path" where
  "os_path_dirname p = butlast p"

text \<open>
  \<open>os.path.splitext\<close> on a bare file name: the extension starts at the last dot, unless
  every character before that dot is a dot as well (a leading-dot name has no extension).
\<close>

definition splitext :: "string \<Rightarrow> string \<times> string" where
  "splitext p =
     (let suffix = rev (takeWhile (\<lambda>c. c \<noteq> CHR ''.'') (rev p));
          stem = take (length p - Suc (length suffix)) p
      in if CHR ''.'' \<in> set p \<and> (\<exists>c \<in> set stem. c \<noteq> CHR ''.'')
         then (stem, CHR ''.'' # suffix) else (p, []))"

text \<open>\<open>s.replace(".", "")\<close>, \<open>s.replace(":", "-")\<close> and \<open>s.split(" ")\<close>.\<close>

definition remove_dots :: "string \<Rightarrow> string" where
  "remove_dots s = filter (\<lambda>c. c \<noteq> CHR ''.'') s"

definition colons_to_dashes :: "string \<Rightarrow> string" where
  "colons_to_dashes s = map (\<lambda>c. if c = CHR '':'' then CHR ''-'' else c) s"

fun split_space :: "string \<Rightarrow> string list" where
  "split_space [] = [[]]"
| "split_space (c # cs) =
     (if c = CHR '' '' then [] # split_space cs
      else (case split_space cs of [] \<Rightarrow> [[c]] | w # ws \<Rightarrow> (c # w) # ws))"

section \<open>The file system\<close>

text \<open>
  A regular file is represented by the tags the EXIF decoder finds in it (tag name and
  printable value); a directory by its entries in listing order.
\<close>

type_synonym tags = "(string \<times> string) list"

datatype node = File tags | Dir "(string \<times> node) list"

datatype py_error =
    AttributeError | KeyError | NameError | RuntimeError
  | FileExistsError | FileNotFoundError | PermissionError
  | NotADirectoryError | IsADirectoryError | ShutilError | OSError

text \<open>
  Looking a path up component by component, with the error the system call reports: a
  missing entry, or a regular file where a directory is needed.
\<close>

fun stat0 :: "node \<Rightarrow> path \<Rightarrow> py_error + node" where
  "stat0 n [] = Inr n"
| "stat0 (File t) (c # cs) = Inl NotADirectoryError"
| "stat0 (Dir es) (c # cs) =
     (case map_of es c of None \<Rightarrow> Inl FileNotFoundError | Some m \<Rightarrow> stat0 m cs)"

text \<open>
  Path resolution: \<open>.\<close> and \<open>..\<close> need the directory they stand in to exist; \<open>..\<close> steps to
  its parent (the root is its own parent). The result is the path without them.
\<close>

fun canon :: "node \<Rightarrow> path \<Rightarrow> path \<Rightarrow> py_error + path" where
  "canon fs acc [] = Inr acc"
| "canon fs acc (c # cs) =
     (if c = ''.'' \<or> c = ''..'' then
        (case stat0 fs acc of
           Inl e \<Rightarrow> Inl e
         | Inr (File t) \<Rightarrow> Inl NotADirectoryError
         | Inr (Dir es) \<Rightarrow> canon fs (if c = ''..'' then butlast acc else acc) cs)
      else canon fs (acc @ [c]) cs)"

definition stat :: "node \<Rightarrow> path \<Rightarrow> py_error + node" where
  "stat fs p = (case canon fs [] p of Inl e \<Rightarrow> Inl e | Inr q \<Rightarrow> stat0 fs q)"

definition lookup :: "node \<Rightarrow> path \<Rightarrow> node option" where
  "lookup fs p = (case stat fs p of Inl e \<Rightarrow> None | Inr n \<Rightarrow> Some n)"

fun is_dir :: "node option \<Rightarrow> bool" where
  "is_dir (Some (Dir es)) = True"
| "is_dir _ = False"

text \<open>Removing and writing the entry at a resolved path whose parent directory exists.\<close>

fun remove_at :: "node \<Rightarrow> path \<Rightarrow> node" where
  "remove_at n [] = n"
| "remove_at (File t) (c # cs) = File t"
| "remove_at (Dir es) [c] = Dir (AList.delete c es)"
| "remove_at (Dir es) (c # cs) =
     (case map_of es c of None \<Rightarrow> Dir es
      | Some m \<Rightarrow> Dir (AList.update c (remove_at m cs) es))"

fun put_at :: "node \<Rightarrow> path \<Rightarrow> node \<Rightarrow> node" where
  "put_at n [] x = x"
| "put_at (File t) (c # cs) x = File t"
| "put_at (Dir es) [c] x = Dir (AList.update c x es)"
| "put_at (Dir es) (c # cs) x =
     (case map_of es c of None \<Rightarrow> Dir es
      | Some m \<Rightarrow> Dir (AList.update c (put_at m cs x) es))"

text \<open>
  \<open>os.makedirs(p, exist_ok=True)\<close>, component by component from the root: an existing
  directory is entered, a missing one is created, \<open>.\<close> stays and \<open>..\<close> steps back. A
  regular file in the way is an error: \<open>FileExistsError\<close> when it is the last component,
  \<open>NotADirectoryError\<close> before that. The result carries the resolved path of the directory.
\<close>

fun mk_seq :: "node \<Rightarrow> path \<Rightarrow> path \<Rightarrow> py_error + node \<times> path" where
  "mk_seq fs acc [] = Inr (fs, acc)"
| "mk_seq fs acc (c # cs) =
     (if c = ''.'' then mk_seq fs acc cs
      else if c = ''..'' then mk_seq fs (butlast acc) cs
      else (case stat0 fs (acc @ [c]) of
              Inr (Dir es) \<Rightarrow> mk_seq fs (acc @ [c]) cs
            | Inr (File t) \<Rightarrow> Inl (if cs = [] then FileExistsError else NotADirectoryError)
            | Inl FileNotFoundError \<Rightarrow>
                mk_seq (put_at fs (acc @ [c]) (Dir [])) (acc @ [c]) cs
            | Inl e \<Rightarrow> Inl e))"

definition os_makedirs :: "node \<Rightarrow> path \<Rightarrow> py_error + node" where
  "os_makedirs fs p =
     (case fs of
        File t \<Rightarrow> Inl NotADirectoryError
      | Dir es \<Rightarrow> (case mk_seq fs [] p of Inl e \<Rightarrow> Inl e | Inr (fs', q) \<Rightarrow> Inr fs'))"

text \<open>
  \<open>shutil.move(src, dst)\<close>, as the library is written. When \<open>dst\<close> is an existing
  directory the source goes inside it, under its own base name, and an entry of that name
  already there is an error of \<open>shutil\<close>'s own. Then \<open>os.rename\<close> is tried, and where it
  fails \<open>shutil\<close> copies and deletes.

  For a regular file this replaces an existing regular file at the destination; the
  rename and the copy fail alike where the destination's directory is missing or is a
  regular file.
\<close>

definition basename :: "path \<Rightarrow> string" where
  "basename p = (if p = [] then [] else last p)"

definition move_file :: "node \<Rightarrow> path \<Rightarrow> tags \<Rightarrow> path \<Rightarrow> py_error + node" where
  "move_file fs s t real_dst =
     (case canon fs [] real_dst of
        Inl e \<Rightarrow> Inl e
      | Inr d \<Rightarrow>
          if d = s then Inr fs
          else (case stat0 fs (butlast d) of
                  Inl e \<Rightarrow> Inl e
                | Inr (File u) \<Rightarrow> Inl NotADirectoryError
                | Inr (Dir ps) \<Rightarrow>
                    (case stat0 fs d of
                       Inr (Dir ds) \<Rightarrow> Inl IsADirectoryError
                     | _ \<Rightarrow> Inr (put_at (remove_at fs s) d (File t)))))"

text \<open>
  For a directory, \<open>os.rename\<close> succeeds onto a missing entry or an empty directory of an
  existing directory outside the source. Where it fails, \<open>shutil\<close> refuses a destination
  that lies, as the paths are written, inside the source; otherwise it copies the tree,
  which creates the destination with its missing parents and refuses an existing entry
  with \<open>FileExistsError\<close>, and removes the source.
\<close>

definition rename_dir :: "node \<Rightarrow> path \<Rightarrow> (string \<times> node) list \<Rightarrow> path \<Rightarrow> py_error + node" where
  "rename_dir fs s es real_dst =
     (case canon fs [] real_dst of
        Inl e \<Rightarrow> Inl e
      | Inr d \<Rightarrow>
          if d = s then Inr fs
          else if take (length s) d = s then Inl OSError
          else (case stat0 fs (butlast d) of
                  Inl e \<Rightarrow> Inl e
                | Inr (File u) \<Rightarrow> Inl NotADirectoryError
                | Inr (Dir ps) \<Rightarrow>
                    (case stat0 fs d of
                       Inr (File u) \<Rightarrow> Inl NotADirectoryError
                     | Inr (Dir (x # xs)) \<Rightarrow> Inl OSError
                     | _ \<Rightarrow> Inr (put_at (remove_at fs s) d (Dir es)))))"

fun normpath :: "path \<Rightarrow> path \<Rightarrow> path" where
  "normpath acc [] = acc"
| "normpath acc (c # cs) =
     (if c = ''.'' then normpath acc cs
      else if c = ''..'' then normpath (butlast acc) cs
      else normpath (acc @ [c]) cs)"

definition destinsrc :: "path \<Rightarrow> path \<Rightarrow> bool" where
  "destinsrc src dst =
     (take (length (normpath [] src)) (normpath [] dst) = normpath [] src)"

definition copytree_rmtree :: "node \<Rightarrow> path \<Rightarrow> (string \<times> node) list \<Rightarrow> path \<Rightarrow> py_error + node" where
  "copytree_rmtree fs s es real_dst =
     (case stat fs real_dst of
        Inr n \<Rightarrow> Inl FileExistsError
      | Inl e0 \<Rightarrow>
          (case mk_seq fs [] real_dst of
             Inl e \<Rightarrow> Inl e
           | Inr (fs1, d) \<Rightarrow> Inr (put_at (remove_at fs1 s) d (Dir es))))"

definition shutil_move :: "node \<Rightarrow> path \<Rightarrow> path \<Rightarrow> py_error + node" where
  "shutil_move fs src dst =
     (let dst_is_dir = is_dir (lookup fs dst);
          samefile = (case (canon fs [] src, canon fs [] dst) of
                        (Inr s, Inr d) \<Rightarrow> s = d \<and> lookup fs src \<noteq> None
                      | _ \<Rightarrow> False);
          real_dst = (if dst_is_dir then os_path_join dst (basename src) else dst)
      in if dst_is_dir \<and> samefile then Inr fs
         else if dst_is_dir \<and> lookup fs real_dst \<noteq> None then Inl ShutilError
         else (case (canon fs [] src, stat fs src) of
                 (Inr s, Inr (File t)) \<Rightarrow> move_file fs s t real_dst
               | (Inr s, Inr (Dir es)) \<Rightarrow>
                   (case rename_dir fs s es real_dst of
                      Inr fs' \<Rightarrow> Inr fs'
                    | Inl e \<Rightarrow>
                        if destinsrc src dst then Inl ShutilError
                        else copytree_rmtree fs s es real_dst)
               | (Inr s, Inl e) \<Rightarrow> Inl e
               | (Inl e, r) \<Rightarrow> Inl e))"

text \<open>
  The file-system boundary the handlers of the classification passes are written for: a
  move that refuses an occupied destination.
\<close>

definition exclusive_move :: "node \<Rightarrow> path \<Rightarrow> path \<Rightarrow> py_error + node" where
  "exclusive_move fs src dst =
     (if lookup fs dst \<noteq> None then Inl FileExistsError else shutil_move fs src dst)"

text \<open>
  \<open>os.walk(top)\<close>, top-down: a directory yields its own triple (root, directory names,
  file names) before the triples of its subdirectories; the roots are \<open>top\<close> as written,
  joined with the names on the way. A top that is not a directory yields nothing.
\<close>

fun dir_names :: "(string \<times> node) list \<Rightarrow> string list" where
  "dir_names [] = []"
| "dir_names ((c, Dir es) # rest) = c # dir_names rest"
| "dir_names ((c, File t) # rest) = dir_names rest"

fun file_names :: "(string \<times> node) list \<Rightarrow> string list" where
  "file_names [] = []"
| "file_names ((c, File t) # rest) = c # file_names rest"
| "file_names ((c, Dir es) # rest) = file_names rest"

fun walk_node :: "path \<Rightarrow> node \<Rightarrow> (path \<times> string list \<times> string list) list"
  and walk_entries :: "path \<Rightarrow> (string \<times> node) list \<Rightarrow> (path \<times> string list \<times> string list) list"
where
  "walk_node p (File t) = []"
| "walk_node p (Dir es) = (p, dir_names es, file_names es) # walk_entries p es"
| "walk_entries p [] = []"
| "walk_entries p ((c, n) # rest) = walk_node (p @ [c]) n @ walk_entries p rest"

definition os_walk :: "node \<Rightarrow> path \<Rightarrow> (path \<times> string list \<times> string list) list" where
  "os_walk fs top_dir =
     (case lookup fs top_dir of None \<Rightarrow> [] | Some n \<Rightarrow> walk_node top_dir n)"

section \<open>The state of a run\<close>

text \<open>
  The two dictionaries of \<open>ImageInfo\<close> are association lists in insertion order, which
  is the order Python iterates a dictionary in; assigning to an existing key keeps its
  position. The file system and the printed lines are part of the state.
\<close>

record file_rec =
  Name :: string
  ext :: string
  Path :: path
  Folder :: path

record exif_rec =
  Type :: string
  Date :: string
  Time :: string
  CameraModel :: string
  ISO :: string
  Shutter :: string
  Aperture :: string

datatype event =
    SelectMode string
  | Moved string path path
  | FailedToMove string py_error
  | AlreadyExists string
  | NoPermission
  | SourceNotExists string
  | SkipExif
  | UnsupportedMode string
  | Finished

record image_info =
  target_path :: path
  exif_dic :: "(string \<times> exif_rec) list"
  file_info :: "(string \<times> file_rec) list"
  exif_classify_mode :: string
  is_ext_classify :: bool
  fs :: node
  out :: "event list"

record config =
  cfg_target_path :: path
  cfg_classify_by_ext :: bool
  cfg_exif_mode :: string

text \<open>An unhandled exception ends the run; the state reached so far is kept with it.\<close>

type_synonym result = "(py_error \<times> image_info) + image_info"

datatype ctl = Next image_info | Return image_info | Raise py_error image_info

type_synonym mover = "node \<Rightarrow> path \<Rightarrow> path \<Rightarrow> py_error + node"

section \<open>\<open>ImageInfo.get_file_info\<close>\<close>

fun get_files :: "path \<Rightarrow> string list \<Rightarrow> (string \<times> file_rec) list \<Rightarrow> (string \<times> file_rec) list" where
  "get_files root [] fi = fi"
| "get_files root (file # files) fi =
     (let (file_name, file_expand_name) = splitext file in
      if file_expand_name \<noteq> [] then
        get_files root files
          (AList.update file
             \<lparr>Name = file_name, ext = remove_dots file_expand_name,
              Path = os_path_join root file, Folder = root\<rparr> fi)
      else get_files root files fi)"

fun get_walk :: "(path \<times> string list \<times> string list) list \<Rightarrow> (string \<times> file_rec) list \<Rightarrow> (string \<times> file_rec) list" where
  "get_walk [] fi = fi"
| "get_walk ((root, dirs, files) # rest) fi = get_walk rest (get_files root files fi)"

definition get_file_info :: "image_info \<Rightarrow> image_info" where
  "get_file_info st =
     st\<lparr>file_info := get_walk (os_walk (fs st) (target_path st)) (file_info st)\<rparr>"

section \<open>\<open>ImageInfo.get_exif_metadata\<close>\<close>

text \<open>
  \<open>tags.get(k)\<close> is \<open>None\<close> for a tag the file does not have, and \<open>None.printable\<close>
  raises \<open>AttributeError\<close>; the five tags are read unguarded.
\<close>

definition file_exif_of :: "string \<Rightarrow> tags \<Rightarrow> py_error + exif_rec" where
  "file_exif_of e tg =
     (case (map_of tg ''EXIF DateTimeOriginal'', map_of tg ''Image Model'',
            map_of tg ''EXIF ISOSpeedRatings'', map_of tg ''EXIF ExposureTime'',
            map_of tg ''EXIF FNumber'') of
        (Some dt, Some model, Some isov, Some expo, Some fnum) \<Rightarrow>
          Inr \<lparr>Type = e,
               Date = colons_to_dashes (hd (split_space dt)),
               Time = last (split_space dt),
               CameraModel = model,
               ISO = ''ISO'' @ isov,
               Shutter = expo @ ''s'',
               Aperture = ''f'' @ fnum\<rparr>
      | _ \<Rightarrow> Inl AttributeError)"

definition get_exif_file :: "string \<Rightarrow> image_info \<Rightarrow> ctl" where
  "get_exif_file file st =
     (case map_of (file_info st) file of
        None \<Rightarrow> Raise KeyError st
      | Some r \<Rightarrow>
          if map_of (exif_dic st) (Name r) \<noteq> None then Next st
          else (case stat (fs st) (Path r) of
                  Inl e \<Rightarrow> Raise e st
                | Inr (Dir es) \<Rightarrow> Raise IsADirectoryError st
                | Inr (File tg) \<Rightarrow>
                    (case file_exif_of (ext r) tg of
                       Inl e \<Rightarrow> Raise e st
                     | Inr file_exif \<Rightarrow>
                         Next (st\<lparr>exif_dic := AList.update (Name r) file_exif (exif_dic st)\<rparr>))))"

fun get_exif_loop :: "string list \<Rightarrow> image_info \<Rightarrow> result" where
  "get_exif_loop [] st = Inr st"
| "get_exif_loop (file # files) st =
     (case get_exif_file file st of
        Next st' \<Rightarrow> get_exif_loop files st'
      | Return st' \<Rightarrow> Inr st'
      | Raise e st' \<Rightarrow> Inl (e, st'))"

definition get_exif_metadata :: "image_info \<Rightarrow> result" where
  "get_exif_metadata st = get_exif_loop (map fst (file_info st)) st"

section \<open>\<open>ImageInfo.classify_exif\<close>\<close>

text \<open>
  The names bound in the body of \<open>classify_exif\<close> when an exception handler runs (the
  parameter, the loop variable and the assignments of the branch taken), and the names of
  the module. The handler of \<open>FileExistsError\<close> formats its message from \<open>file\<close> and
  \<open>camera_model_folder\<close>; a name that is bound nowhere raises \<open>NameError\<close>.
\<close>

definition classify_exif_locals :: "string \<Rightarrow> string list" where
  "classify_exif_locals mode =
     [''self'', ''file'', ''file_name'', ''original_path'', ''root_path'']
     @ (if mode = ''0'' then [''camera_model''] else [])
     @ (if mode = ''1'' then [''capture_date''] else [])
     @ [''dst_folder'', ''dst_path'']"

definition module_names :: "string list" where
  "module_names =
     [''os'', ''shutil'', ''time'', ''exifread'', ''json'',
      ''ConfigManager'', ''ImageInfo'', ''main'']"

definition name_bound :: "string \<Rightarrow> string \<Rightarrow> bool" where
  "name_bound mode x \<longleftrightarrow> x \<in> set (classify_exif_locals mode) \<or> x \<in> set module_names"

definition classify_exif_file :: "mover \<Rightarrow> string \<Rightarrow> image_info \<Rightarrow> ctl" where
  "classify_exif_file mv file st =
     (let file_name = fst (splitext file); mode = exif_classify_mode st in
      case map_of (exif_dic st) file_name of
        None \<Rightarrow> Next st
      | Some x \<Rightarrow>
          (case map_of (file_info st) file of
             None \<Rightarrow> Raise KeyError st
           | Some r \<Rightarrow>
               let original_path = Path r; root_path = os_path_dirname original_path in
               if mode = ''0'' \<or> mode = ''1'' then
                 let dst_folder =
                       os_path_join root_path (if mode = ''0'' then CameraModel x else Date x)
                 in (case os_makedirs (fs st) dst_folder of
                       Inl e \<Rightarrow> Raise e st
                     | Inr fs1 \<Rightarrow>
                         let dst_path = os_path_join dst_folder file; st1 = st\<lparr>fs := fs1\<rparr> in
                         (case mv fs1 original_path dst_path of
                            Inr fs2 \<Rightarrow>
                              Next (st1\<lparr>fs := fs2,
                                        out := out st1 @ [Moved file original_path dst_path],
                                        file_info :=
                                          AList.update file
                                            (r\<lparr>Path := dst_path, Folder := dst_folder\<rparr>)
                                            (file_info st1)\<rparr>)
                          | Inl FileExistsError \<Rightarrow>
                              if name_bound mode ''file'' \<and> name_bound mode ''camera_model_folder''
                              then Next (st1\<lparr>out := out st1 @ [AlreadyExists file]\<rparr>)
                              else Raise NameError st1
                          | Inl PermissionError \<Rightarrow> Next (st1\<lparr>out := out st1 @ [NoPermission]\<rparr>)
                          | Inl FileNotFoundError \<Rightarrow>
                              Next (st1\<lparr>out := out st1 @ [SourceNotExists file]\<rparr>)
                          | Inl e \<Rightarrow> Raise e st1))
               else if mode = [] then Return (st\<lparr>out := out st @ [SkipExif]\<rparr>)
               else Raise RuntimeError (st\<lparr>out := out st @ [UnsupportedMode mode]\<rparr>)))"

fun classify_exif_loop :: "mover \<Rightarrow> string list \<Rightarrow> image_info \<Rightarrow> result" where
  "classify_exif_loop mv [] st = Inr st"
| "classify_exif_loop mv (file # files) st =
     (case classify_exif_file mv file st of
        Next st' \<Rightarrow> classify_exif_loop mv files st'
      | Return st' \<Rightarrow> Inr st'
      | Raise e st' \<Rightarrow> Inl (e, st'))"

definition classify_exif :: "mover \<Rightarrow> image_info \<Rightarrow> result" where
  "classify_exif mv st =
     (if exif_classify_mode st \<noteq> [] then
        (let st0 = st\<lparr>out := out st @ [SelectMode (exif_classify_mode st)]\<rparr>
         in classify_exif_loop mv (map fst (file_info st0)) st0)
      else Inr st)"

section \<open>\<open>ImageInfo.classify_expand_name\<close>\<close>

definition classify_expand_file :: "mover \<Rightarrow> string \<Rightarrow> image_info \<Rightarrow> ctl" where
  "classify_expand_file mv file st =
     (case map_of (file_info st) file of
        None \<Rightarrow> Raise KeyError st
      | Some r \<Rightarrow>
          let type_folder = os_path_join (Folder r) (ext r) in
          (case os_makedirs (fs st) type_folder of
             Inl e \<Rightarrow> Raise e st
           | Inr fs1 \<Rightarrow>
               let file_original_path = Path r;
                   file_new_path = os_path_join type_folder file;
                   st1 = st\<lparr>fs := fs1\<rparr>
               in (case mv fs1 file_original_path file_new_path of
                     Inr fs2 \<Rightarrow>
                       Next (st1\<lparr>fs := fs2,
                                 out := out st1 @ [Moved file file_original_path file_new_path],
                                 file_info :=
                                   AList.update file (r\<lparr>Path := file_new_path\<rparr>)
                                     (file_info st1)\<rparr>)
                   | Inl e \<Rightarrow> Next (st1\<lparr>out := out st1 @ [FailedToMove file e]\<rparr>))))"

fun classify_expand_loop :: "mover \<Rightarrow> string list \<Rightarrow> image_info \<Rightarrow> result" where
  "classify_expand_loop mv [] st = Inr st"
| "classify_expand_loop mv (file # files) st =
     (case classify_expand_file mv file st of
        Next st' \<Rightarrow> classify_expand_loop mv files st'
      | Return st' \<Rightarrow> Inr st'
      | Raise e st' \<Rightarrow> Inl (e, st'))"

definition classify_expand_name :: "mover \<Rightarrow> image_info \<Rightarrow> result" where
  "classify_expand_name mv st = classify_expand_loop mv (map fst (file_info st)) st"

section \<open>\<open>main\<close>\<close>

text \<open>
  The configuration arrives read and validated. The move primitive is a parameter of the
  passes; the program itself runs them with \<open>shutil.move\<close>.
\<close>

definition init_info :: "config \<Rightarrow> node \<Rightarrow> image_info" where
  "init_info cfg fs0 =
     \<lparr>target_path = cfg_target_path cfg, exif_dic = [], file_info = [],
      exif_classify_mode = cfg_exif_mode cfg, is_ext_classify = cfg_classify_by_ext cfg,
      fs = fs0, out = []\<rparr>"

definition main_with :: "mover \<Rightarrow> config \<Rightarrow> node \<Rightarrow> result" where
  "main_with mv cfg fs0 =
     (case get_exif_metadata (get_file_info (init_info cfg fs0)) of
        Inl a \<Rightarrow> Inl a
      | Inr st1 \<Rightarrow>
          (case classify_exif mv st1 of
             Inl a \<Rightarrow> Inl a
           | Inr st2 \<Rightarrow>
               (case classify_expand_name mv st2 of
                  Inl a \<Rightarrow> Inl a
                | Inr st3 \<Rightarrow> Inr (st3\<lparr>out := out st3 @ [Finished]\<rparr>))))"

definition main :: "config \<Rightarrow> node \<Rightarrow> result" where
  "main cfg fs0 = main_with shutil_move cfg fs0"

section \<open>Notions used in the statements\<close>

text \<open>The record the scan writes for a file name found under a root.\<close>

definition scan_record :: "path \<Rightarrow> string \<Rightarrow> file_rec" where
  "scan_record root file =
     \<lparr>Name = fst (splitext file), ext = remove_dots (snd (splitext file)),
      Path = os_path_join root file, Folder = root\<rparr>"

text \<open>The root of the last triple of a walk that lists a file name.\<close>

fun last_root :: "(path \<times> string list \<times> string list) list \<Rightarrow> string \<Rightarrow> path option" where
  "last_root [] f = None"
| "last_root ((root, dirs, files) # rest) f =
     (case last_root rest f of
        Some r \<Rightarrow> Some r
      | None \<Rightarrow> if f \<in> set files then Some root else None)"

text \<open>The successful moves that the printed lines report for one catalog key, in order.\<close>

fun moves_of :: "string \<Rightarrow> event list \<Rightarrow> (path \<times> path) list" where
  "moves_of f [] = []"
| "moves_of f (Moved k src dst # evs) =
     (if k = f then (src, dst) # moves_of f evs else moves_of f evs)"
| "moves_of f (ev # evs) = moves_of f evs"

text \<open>Names for the destinations the two passes compute.\<close>

definition exif_segment :: "string \<Rightarrow> exif_rec \<Rightarrow> string" where
  "exif_segment mode x = (if mode = ''0'' then CameraModel x else Date x)"

definition exif_folder :: "string \<Rightarrow> exif_rec \<Rightarrow> file_rec \<Rightarrow> path" where
  "exif_folder mode x r = os_path_join (os_path_dirname (Path r)) (exif_segment mode x)"

definition expand_target :: "file_rec \<Rightarrow> string \<Rightarrow> path" where
  "expand_target r file = os_path_join (os_path_join (Folder r) (ext r)) file"

text \<open>The state an outcome carries, whether the run finished or was aborted.\<close>

fun ctl_state :: "ctl \<Rightarrow> image_info" where
  "ctl_state (Next st) = st"
| "ctl_state (Return st) = st"
| "ctl_state (Raise e st) = st"

fun final_state :: "result \<Rightarrow> image_info" where
  "final_state (Inl (e, st)) = st"
| "final_state (Inr st) = st"

text \<open>A state, a step outcome and a run outcome with the field \<open>is_ext_classify\<close> overwritten.\<close>

definition set_flag :: "bool \<Rightarrow> image_info \<Rightarrow> image_info" where
  "set_flag b st = st\<lparr>is_ext_classify := b\<rparr>"

fun ctl_flag :: "bool \<Rightarrow> ctl \<Rightarrow> ctl" where
  "ctl_flag b (Next st) = Next (set_flag b st)"
| "ctl_flag b (Return st) = Return (set_flag b st)"
| "ctl_flag b (Raise e st) = Raise e (set_flag b st)"

fun result_flag :: "bool \<Rightarrow> result \<Rightarrow> result" where
  "result_flag b (Inl (e, st)) = Inl (e, set_flag b st)"
| "result_flag b (Inr st) = Inr (set_flag b st)"

section \<open>Tidy trees\<close>

text \<open>
  A plain name is what a directory listing can hold: not empty, without separator, and
  neither \<open>.\<close> nor \<open>..\<close>. A name is fit for a directory of a tidy tree when it is plain
  and \<open>os.path.splitext\<close> finds no extension in it. In a tidy tree the names of a
  directory are plain and distinct, and no directory name has an extension; so no directory
  is named like a file that the scan catalogs.
\<close>

definition plain :: "string \<Rightarrow> bool" where
  "plain s \<longleftrightarrow> s \<noteq> [] \<and> CHR ''/'' \<notin> set s \<and> s \<noteq> ''.'' \<and> s \<noteq> ''..''"

definition dirlike :: "string \<Rightarrow> bool" where
  "dirlike s \<longleftrightarrow> plain s \<and> snd (splitext s) = []"




section \<open>Notions used in the proofs\<close>

text \<open>
  What stands at a path written with plain names: nothing (\<open>None\<close>), a directory
  (\<open>Some None\<close>) or a regular file with its tags.
\<close>

definition kind :: "node \<Rightarrow> path \<Rightarrow> tags option option" where
  "kind n p = (case stat0 n p of Inl e \<Rightarrow> None | Inr (File t) \<Rightarrow> Some (Some t) | Inr (Dir es) \<Rightarrow> Some None)"

text \<open>
  The invariant of a run over a tidy tree: every directory is reached through names fit
  for directories, and every catalog record holds the path of a regular file whose last
  component is the record's key, and the path of a directory as its folder.
\<close>

definition dirs_ok :: "node \<Rightarrow> bool" where
  "dirs_ok n \<longleftrightarrow> (\<forall>p. kind n p = Some None \<longrightarrow> list_all dirlike p)"

definition ok_rec :: "node \<Rightarrow> string \<Rightarrow> file_rec \<Rightarrow> bool" where
  "ok_rec n k r \<longleftrightarrow>
     plain k \<and> snd (splitext k) \<noteq> [] \<and> (ext r = [] \<or> dirlike (ext r)) \<and>
     Path r \<noteq> [] \<and> last (Path r) = k \<and> (\<exists>t. kind n (Path r) = Some (Some t)) \<and>
     kind n (Folder r) = Some None"

definition run_inv :: "image_info \<Rightarrow> bool" where
  "run_inv st \<longleftrightarrow>
     dirs_ok (fs st) \<and> (\<forall>k r. map_of (file_info st) k = Some r \<longrightarrow> ok_rec (fs st) k r)"


text \<open>
  Two relations between an earlier and a later state of a run, for one catalog key \<open>f\<close>:
  nothing happened to it (its record, its reported moves and whatever stands at the paths
  that end in \<open>f\<close> are the same), or it was moved once (the record changed, one move was
  reported, the file with its tags stands at the new path and has left the old one, and
  the other paths that end in \<open>f\<close> are as before).
\<close>

definition same_for :: "string \<Rightarrow> image_info \<Rightarrow> image_info \<Rightarrow> bool" where
  "same_for f st S \<longleftrightarrow>
     map_of (file_info S) f = map_of (file_info st) f \<and>
     moves_of f (out S) = moves_of f (out st) \<and>
     (\<forall>p. p \<noteq> [] \<and> last p = f \<longrightarrow> kind (fs S) p = kind (fs st) p)"

definition moved_to :: "string \<Rightarrow> file_rec \<Rightarrow> file_rec \<Rightarrow> image_info \<Rightarrow> image_info \<Rightarrow> bool" where
  "moved_to f r r' st S \<longleftrightarrow>
     map_of (file_info st) f = Some r \<and> map_of (file_info S) f = Some r' \<and>
     moves_of f (out S) = moves_of f (out st) @ [(Path r, Path r')] \<and>
     (\<exists>t. kind (fs st) (Path r) = Some (Some t) \<and> kind (fs S) (Path r') = Some (Some t)) \<and>
     (Path r \<noteq> Path r' \<longrightarrow> kind (fs S) (Path r) = None) \<and>
     (\<forall>p. p \<noteq> [] \<and> last p = f \<and> p \<noteq> Path r \<and> p \<noteq> Path r' \<longrightarrow> kind (fs S) p = kind (fs st) p)"

section \<open>Sample inputs\<close>

definition exif_tags :: "string \<Rightarrow> string \<Rightarrow> tags" where
  "exif_tags model stamp =
     [(''EXIF DateTimeOriginal'', stamp), (''Image Model'', model),
      (''EXIF ISOSpeedRatings'', ''100''), (''EXIF ExposureTime'', ''1/200''),
      (''EXIF FNumber'', ''2.8'')]"

definition photo :: node where
  "photo = File (exif_tags ''CameraX'' ''2024:05:01 10:20:30'')"

definition other_photo :: node where
  "other_photo = File (exif_tags ''CameraX'' ''2023:01:02 03:04:05'')"

definition policy :: "bool \<Rightarrow> string \<Rightarrow> config" where
  "policy by_ext mode =
     \<lparr>cfg_target_path = [''d''], cfg_classify_by_ext = by_ext, cfg_exif_mode = mode\<rparr>"

text \<open>One photo in the scanned directory; the same tree after an extension-only run.\<close>

definition fs_one :: node where
  "fs_one = Dir [(''d'', Dir [(''a.jpg'', photo)])]"


text \<open>A text file, which carries no EXIF tag; an empty directory.\<close>

definition fs_text :: node where
  "fs_text = Dir [(''d'', Dir [(''notes.txt'', File [])])]"

definition fs_empty :: node where
  "fs_empty = Dir [(''d'', Dir [])]"

text \<open>Two photos of the same name in different folders.\<close>

definition fs_dup :: node where
  "fs_dup =
     Dir [(''d'', Dir [(''a.jpg'', photo), (''sub'', Dir [(''a.jpg'', other_photo)])])]"

text \<open>
  A state of \<open>ImageInfo\<close> whose catalog holds \<open>d/a.jpg\<close> while another file already
  occupies the destination \<open>d/CameraX/a.jpg\<close> of its move by camera model.
\<close>

definition fs_occupied :: node where
  "fs_occupied =
     Dir [(''d'', Dir [(''a.jpg'', photo), (''CameraX'', Dir [(''a.jpg'', other_photo)])])]"

definition info_occupied :: image_info where
  "info_occupied =
     \<lparr>target_path = [''d''],
      exif_dic = [(''a'', \<lparr>Type = ''jpg'', Date = ''2024-05-01'', Time = ''10:20:30'',
                     CameraModel = ''CameraX'', ISO = ''ISO100'', Shutter = ''1/200s'',
                     Aperture = ''f2.8''\<rparr>)],
      file_info = [(''a.jpg'', \<lparr>Name = ''a'', ext = ''jpg'', Path = [''d'', ''a.jpg''],
                     Folder = [''d'']\<rparr>)],
      exif_classify_mode = ''0'', is_ext_classify = True, fs = fs_occupied, out = []\<rparr>"

text \<open>The same for the extension pass: \<open>d/jpg/a.jpg\<close> exists already.\<close>

definition fs_occupied_ext :: node where
  "fs_occupied_ext =
     Dir [(''d'', Dir [(''a.jpg'', photo), (''jpg'', Dir [(''a.jpg'', other_photo)])])]"

definition info_occupied_ext :: image_info where
  "info_occupied_ext = info_occupied\<lparr>exif_classify_mode := [], fs := fs_occupied_ext\<rparr>"

text \<open>A directory named like the photo stands where the move by camera model would put it.\<close>

definition fs_dir_clash :: node where
  "fs_dir_clash =
     Dir [(''d'', Dir [(''a.jpg'', photo), (''CameraX'', Dir [(''a.jpg'', Dir [])])])]"

text \<open>
  A directory named like the photo, holding a file without extension, stands where the
  move by camera model would put the photo.
\<close>

definition fs_carry :: node where
  "fs_carry =
     Dir [(''d'', Dir [(''a.jpg'', photo),
                       (''CameraX'', Dir [(''a.jpg'', Dir [(''README'', File [])])])])]"


section \<open>The scan\<close>

lemma splitext_Nil: "splitext [] = ([], [])"
  by (simp add: splitext_def)

lemma get_files_map_of:
  "map_of (get_files root files fi) f =
     (if f \<in> set files \<and> snd (splitext f) \<noteq> [] then Some (scan_record root f) else map_of fi f)"
proof (induction files arbitrary: fi)
  case Nil
  then show ?case by simp
next
  case (Cons a files)
  then show ?case
    by (auto simp: scan_record_def update_conv' split_beta)
qed

lemma get_walk_map_of:
  "map_of (get_walk w fi) f =
     (if snd (splitext f) = [] then map_of fi f
      else (case last_root w f of None \<Rightarrow> map_of fi f | Some root \<Rightarrow> Some (scan_record root f)))"
proof (induction w arbitrary: fi)
  case Nil
  then show ?case by simp
next
  case (Cons t w)
  obtain root dirs files where t: "t = (root, dirs, files)"
    by (cases t) auto
  show ?case
    by (simp add: t Cons.IH get_files_map_of split: option.splits)
qed




lemma last_root_None:
  "last_root w f = None \<longleftrightarrow> (\<forall>(root, dirs, files) \<in> set w. f \<notin> set files)"
  by (induction w) (auto split: option.splits if_splits)


lemma scan_map_of:
  "map_of (file_info (get_file_info (init_info cfg fs0))) f =
     (if snd (splitext f) = [] then None
      else map_option (\<lambda>root. scan_record root f) (last_root (os_walk fs0 (cfg_target_path cfg)) f))"
  by (simp add: get_file_info_def init_info_def get_walk_map_of split: option.splits)

section \<open>Steps of the two passes\<close>

lemma moves_of_append: "moves_of f (xs @ ys) = moves_of f xs @ moves_of f ys"
proof (induction xs)
  case Nil
  then show ?case by simp
next
  case (Cons ev xs)
  then show ?case by (cases ev) auto
qed

lemma update_keys_present:
  "map_of al k = Some v \<Longrightarrow> map fst (AList.update k v' al) = map fst al"
  by (induction al) auto

lemma classify_expand_file_cases:
  assumes "classify_expand_file mv k st = c"
  obtains
    (nokey) "map_of (file_info st) k = None" "c = Raise KeyError st"
  | (mkfail) r e where "map_of (file_info st) k = Some r"
      "os_makedirs (fs st) (os_path_join (Folder r) (ext r)) = Inl e" "c = Raise e st"
  | (moved) r fs1 fs2 where "map_of (file_info st) k = Some r"
      "os_makedirs (fs st) (os_path_join (Folder r) (ext r)) = Inr fs1"
      "mv fs1 (Path r) (expand_target r k) = Inr fs2"
      "c = Next (st\<lparr>fs := fs2, out := out st @ [Moved k (Path r) (expand_target r k)],
                    file_info := AList.update k (r\<lparr>Path := expand_target r k\<rparr>) (file_info st)\<rparr>)"
  | (failed) r fs1 e where "map_of (file_info st) k = Some r"
      "os_makedirs (fs st) (os_path_join (Folder r) (ext r)) = Inr fs1"
      "mv fs1 (Path r) (expand_target r k) = Inl e"
      "c = Next (st\<lparr>fs := fs1, out := out st @ [FailedToMove k e]\<rparr>)"
  using assms
  by (auto simp: classify_expand_file_def expand_target_def Let_def split: option.splits sum.splits)

lemma classify_exif_file_cases:
  assumes "classify_exif_file mv k st = c"
  obtains
    (noexif) "map_of (exif_dic st) (fst (splitext k)) = None" "c = Next st"
  | (nokey) x where "map_of (exif_dic st) (fst (splitext k)) = Some x"
      "map_of (file_info st) k = None" "c = Raise KeyError st"
  | (skip) x r where "map_of (exif_dic st) (fst (splitext k)) = Some x"
      "map_of (file_info st) k = Some r" "exif_classify_mode st = []"
      "c = Return (st\<lparr>out := out st @ [SkipExif]\<rparr>)"
  | (unsupported) x r where "map_of (exif_dic st) (fst (splitext k)) = Some x"
      "map_of (file_info st) k = Some r"
      "exif_classify_mode st \<noteq> []" "exif_classify_mode st \<noteq> ''0''" "exif_classify_mode st \<noteq> ''1''"
      "c = Raise RuntimeError (st\<lparr>out := out st @ [UnsupportedMode (exif_classify_mode st)]\<rparr>)"
  | (mkfail) x r e where "map_of (exif_dic st) (fst (splitext k)) = Some x"
      "map_of (file_info st) k = Some r"
      "exif_classify_mode st = ''0'' \<or> exif_classify_mode st = ''1''"
      "os_makedirs (fs st) (exif_folder (exif_classify_mode st) x r) = Inl e" "c = Raise e st"
  | (moved) x r fs1 fs2 where "map_of (exif_dic st) (fst (splitext k)) = Some x"
      "map_of (file_info st) k = Some r"
      "exif_classify_mode st = ''0'' \<or> exif_classify_mode st = ''1''"
      "os_makedirs (fs st) (exif_folder (exif_classify_mode st) x r) = Inr fs1"
      "mv fs1 (Path r) (os_path_join (exif_folder (exif_classify_mode st) x r) k) = Inr fs2"
      "c = Next (st\<lparr>fs := fs2,
                    out := out st @ [Moved k (Path r) (os_path_join (exif_folder (exif_classify_mode st) x r) k)],
                    file_info := AList.update k
                       (r\<lparr>Path := os_path_join (exif_folder (exif_classify_mode st) x r) k,
                          Folder := exif_folder (exif_classify_mode st) x r\<rparr>) (file_info st)\<rparr>)"
  | (failed) x r fs1 e where "map_of (exif_dic st) (fst (splitext k)) = Some x"
      "map_of (file_info st) k = Some r"
      "exif_classify_mode st = ''0'' \<or> exif_classify_mode st = ''1''"
      "os_makedirs (fs st) (exif_folder (exif_classify_mode st) x r) = Inr fs1"
      "mv fs1 (Path r) (os_path_join (exif_folder (exif_classify_mode st) x r) k) = Inl e"
      "(e = PermissionError \<and> c = Next (st\<lparr>fs := fs1, out := out st @ [NoPermission]\<rparr>))
       \<or> (e = FileNotFoundError \<and> c = Next (st\<lparr>fs := fs1, out := out st @ [SourceNotExists k]\<rparr>))
       \<or> (e = FileExistsError \<and> c = Raise NameError (st\<lparr>fs := fs1\<rparr>))
       \<or> (e \<noteq> PermissionError \<and> e \<noteq> FileNotFoundError \<and> e \<noteq> FileExistsError \<and> c = Raise e (st\<lparr>fs := fs1\<rparr>))"
proof (cases "map_of (exif_dic st) (fst (splitext k))")
  case None
  then show ?thesis using assms noexif by (simp add: classify_exif_file_def)
next
  case x: (Some x)
  show ?thesis
  proof (cases "map_of (file_info st) k")
    case None
    then show ?thesis using assms x nokey by (simp add: classify_exif_file_def)
  next
    case r: (Some r)
    show ?thesis
    proof (cases "exif_classify_mode st = ''0'' \<or> exif_classify_mode st = ''1''")
      case False
      then show ?thesis using assms x r skip[OF x r] unsupported[OF x r]
        by (auto simp: classify_exif_file_def Let_def split: if_splits)
    next
      case m: True
      have nb: "\<not> name_bound (exif_classify_mode st) ''camera_model_folder''"
        by (simp add: name_bound_def classify_exif_locals_def module_names_def)
      show ?thesis
      proof (cases "os_makedirs (fs st) (exif_folder (exif_classify_mode st) x r)")
        case (Inl e)
        then show ?thesis using assms x r m mkfail[OF x r m]
          by (auto simp: classify_exif_file_def exif_folder_def exif_segment_def Let_def)
      next
        case mk: (Inr fs1)
        show ?thesis
        proof (cases "mv fs1 (Path r) (os_path_join (exif_folder (exif_classify_mode st) x r) k)")
          case (Inr fs2)
          then show ?thesis using assms x r m mk moved[OF x r m mk]
            by (auto simp: classify_exif_file_def exif_folder_def exif_segment_def Let_def)
        next
          case (Inl e)
          then show ?thesis using assms x r m mk nb failed[OF x r m mk Inl]
            by (cases e) (auto simp: classify_exif_file_def exif_folder_def exif_segment_def Let_def)
        qed
      qed
    qed
  qed
qed

section \<open>What a pass does to one catalog entry\<close>

lemma map_of_update_other: "f \<noteq> k \<Longrightarrow> map_of (AList.update k v al) f = map_of al f"
  by (simp add: update_conv')

subsection \<open>Extension pass\<close>

lemma expand_step_frame:
  "exif_dic (ctl_state (classify_expand_file mv k st)) = exif_dic st \<and>
   exif_classify_mode (ctl_state (classify_expand_file mv k st)) = exif_classify_mode st \<and>
   map fst (file_info (ctl_state (classify_expand_file mv k st))) = map fst (file_info st)"
  by (rule classify_expand_file_cases[where mv=mv and k=k and st=st, OF refl]) (simp_all add: update_keys_present)

lemma expand_step_other:
  "f \<noteq> k \<Longrightarrow>
   map_of (file_info (ctl_state (classify_expand_file mv k st))) f = map_of (file_info st) f \<and>
   moves_of f (out (ctl_state (classify_expand_file mv k st))) = moves_of f (out st)"
  by (rule classify_expand_file_cases[where mv=mv and k=k and st=st, OF refl])
     (simp_all add: map_of_update_other moves_of_append)

lemma expand_loop_frame:
  "exif_dic (final_state (classify_expand_loop mv ks st)) = exif_dic st \<and>
   exif_classify_mode (final_state (classify_expand_loop mv ks st)) = exif_classify_mode st \<and>
   map fst (file_info (final_state (classify_expand_loop mv ks st))) = map fst (file_info st)"
proof (induction ks arbitrary: st)
  case Nil
  then show ?case by simp
next
  case (Cons k ks)
  show ?case
    using expand_step_frame[where mv=mv and k=k and st=st] Cons.IH
    by (cases "classify_expand_file mv k st") simp_all
qed

lemma expand_loop_other:
  "f \<notin> set ks \<Longrightarrow>
   map_of (file_info (final_state (classify_expand_loop mv ks st))) f = map_of (file_info st) f \<and>
   moves_of f (out (final_state (classify_expand_loop mv ks st))) = moves_of f (out st)"
proof (induction ks arbitrary: st)
  case Nil
  then show ?case by simp
next
  case (Cons k ks)
  then have fk: "f \<noteq> k" and fks: "f \<notin> set ks" by auto
  show ?case
    using expand_step_other[OF fk, where mv=mv and st=st] Cons.IH[OF fks]
    by (cases "classify_expand_file mv k st") simp_all
qed

subsection \<open>EXIF pass\<close>

lemma exif_step_frame:
  "exif_dic (ctl_state (classify_exif_file mv k st)) = exif_dic st \<and>
   exif_classify_mode (ctl_state (classify_exif_file mv k st)) = exif_classify_mode st \<and>
   map fst (file_info (ctl_state (classify_exif_file mv k st))) = map fst (file_info st)"
  by (rule classify_exif_file_cases[where mv=mv and k=k and st=st, OF refl])
     (auto simp: update_keys_present)

lemma exif_step_other:
  "f \<noteq> k \<Longrightarrow>
   map_of (file_info (ctl_state (classify_exif_file mv k st))) f = map_of (file_info st) f \<and>
   moves_of f (out (ctl_state (classify_exif_file mv k st))) = moves_of f (out st)"
  by (rule classify_exif_file_cases[where mv=mv and k=k and st=st, OF refl])
     (auto simp: map_of_update_other moves_of_append)

lemma exif_loop_frame:
  "exif_dic (final_state (classify_exif_loop mv ks st)) = exif_dic st \<and>
   exif_classify_mode (final_state (classify_exif_loop mv ks st)) = exif_classify_mode st \<and>
   map fst (file_info (final_state (classify_exif_loop mv ks st))) = map fst (file_info st)"
proof (induction ks arbitrary: st)
  case Nil
  then show ?case by simp
next
  case (Cons k ks)
  show ?case
    using exif_step_frame[where mv=mv and k=k and st=st] Cons.IH
    by (cases "classify_exif_file mv k st") simp_all
qed

lemma exif_loop_other:
  "f \<notin> set ks \<Longrightarrow>
   map_of (file_info (final_state (classify_exif_loop mv ks st))) f = map_of (file_info st) f \<and>
   moves_of f (out (final_state (classify_exif_loop mv ks st))) = moves_of f (out st)"
proof (induction ks arbitrary: st)
  case Nil
  then show ?case by simp
next
  case (Cons k ks)
  then have fk: "f \<noteq> k" and fks: "f \<notin> set ks" by auto
  show ?case
    using exif_step_other[OF fk, where mv=mv and st=st] Cons.IH[OF fks]
    by (cases "classify_exif_file mv k st") simp_all
qed

subsection \<open>Metadata extraction\<close>

lemma get_exif_file_frame:
  "file_info (ctl_state (get_exif_file k st)) = file_info st \<and>
   fs (ctl_state (get_exif_file k st)) = fs st \<and>
   out (ctl_state (get_exif_file k st)) = out st \<and>
   exif_classify_mode (ctl_state (get_exif_file k st)) = exif_classify_mode st"
  by (auto simp: get_exif_file_def split: option.splits node.splits sum.splits)

lemma get_exif_loop_frame:
  "file_info (final_state (get_exif_loop ks st)) = file_info st \<and>
   fs (final_state (get_exif_loop ks st)) = fs st \<and>
   out (final_state (get_exif_loop ks st)) = out st \<and>
   exif_classify_mode (final_state (get_exif_loop ks st)) = exif_classify_mode st"
proof (induction ks arbitrary: st)
  case Nil
  then show ?case by simp
next
  case (Cons k ks)
  show ?case
    using get_exif_file_frame[of k st] Cons.IH
    by (cases "get_exif_file k st") simp_all
qed

lemma get_exif_file_keeps:
  "map_of (exif_dic st) n \<noteq> None \<Longrightarrow> map_of (exif_dic (ctl_state (get_exif_file k st))) n \<noteq> None"
  by (auto simp: get_exif_file_def update_conv' split: option.splits node.splits sum.splits)

lemma get_exif_file_adds:
  "get_exif_file k st = Next st' \<Longrightarrow> map_of (file_info st) k = Some r \<Longrightarrow>
   map_of (exif_dic st') (Name r) \<noteq> None"
  by (auto simp: get_exif_file_def update_conv' split: option.splits node.splits sum.splits if_splits)

lemma get_exif_loop_keeps:
  "get_exif_loop ks st = Inr st' \<Longrightarrow> map_of (exif_dic st) n \<noteq> None \<Longrightarrow>
   map_of (exif_dic st') n \<noteq> None"
proof (induction ks arbitrary: st)
  case Nil
  then show ?case by simp
next
  case (Cons k ks)
  show ?case
  proof (cases "get_exif_file k st")
    case (Next st1)
    with Cons.prems get_exif_file_keeps[of st n k] Cons.IH[of st1] show ?thesis by simp
  next
    case (Return st1)
    then show ?thesis by (auto simp: get_exif_file_def split: option.splits node.splits sum.splits if_splits)
  next
    case (Raise e st1)
    with Cons.prems show ?thesis by simp
  qed
qed

lemma get_exif_loop_covers:
  "get_exif_loop ks st = Inr st' \<Longrightarrow> k \<in> set ks \<Longrightarrow> map_of (file_info st) k = Some r \<Longrightarrow>
   map_of (exif_dic st') (Name r) \<noteq> None"
proof (induction ks arbitrary: st)
  case Nil
  then show ?case by simp
next
  case (Cons a ks)
  show ?case
  proof (cases "get_exif_file a st")
    case (Next st1)
    with Cons.prems(1) have rest: "get_exif_loop ks st1 = Inr st'" by simp
    from get_exif_file_frame[of a st] Next have fi: "file_info st1 = file_info st" by simp
    show ?thesis
    proof (cases "k = a")
      case True
      with get_exif_file_adds[OF Next] Cons.prems(3)
      have "map_of (exif_dic st1) (Name r) \<noteq> None" by simp
      from get_exif_loop_keeps[OF rest this] show ?thesis .
    next
      case False
      with Cons.prems(2) have "k \<in> set ks" by simp
      from Cons.IH[OF rest this] Cons.prems(3) fi show ?thesis by simp
    qed
  next
    case (Return st1)
    then show ?thesis by (auto simp: get_exif_file_def split: option.splits node.splits sum.splits if_splits)
  next
    case (Raise e st1)
    with Cons.prems show ?thesis by simp
  qed
qed

section \<open>Whole runs\<close>

lemma scan_entry:
  assumes "map_of (file_info (get_file_info (init_info cfg fs0))) f = Some r"
  shows "f \<noteq> []" and "snd (splitext f) \<noteq> []" and "r = scan_record (Folder r) f"
proof -
  from assms show e: "snd (splitext f) \<noteq> []"
    by (simp add: get_file_info_def init_info_def get_walk_map_of split: if_splits)
  then show "f \<noteq> []" by (auto simp: splitext_Nil)
  from assms e show "r = scan_record (Folder r) f"
    by (auto simp: get_file_info_def init_info_def get_walk_map_of scan_record_def
        split: if_splits option.splits)
qed

lemma metadata_frame:
  assumes "get_exif_metadata st = Inr st1"
  shows "file_info st1 = file_info st" "fs st1 = fs st" "out st1 = out st"
    "exif_classify_mode st1 = exif_classify_mode st"
  using get_exif_loop_frame[of "map fst (file_info st)" st] assms
  by (simp_all add: get_exif_metadata_def)

lemma scan_state:
  "out (get_file_info (init_info cfg fs0)) = []"
  "fs (get_file_info (init_info cfg fs0)) = fs0"
  "exif_classify_mode (get_file_info (init_info cfg fs0)) = cfg_exif_mode cfg"
  by (simp_all add: get_file_info_def init_info_def)

lemma exif_loop_append:
  assumes "classify_exif_loop mv xs st = Inr st1" and "exif_classify_mode st \<noteq> []"
  shows "classify_exif_loop mv (xs @ ys) st = classify_exif_loop mv ys st1"
  using assms
proof (induction xs arbitrary: st)
  case Nil
  then show ?case by simp
next
  case (Cons k xs)
  show ?case
  proof (cases "classify_exif_file mv k st")
    case (Next st')
    from exif_step_frame[where mv=mv and k=k and st=st] Next
    have "exif_classify_mode st' = exif_classify_mode st" by simp
    with Cons Next show ?thesis by simp
  next
    case (Return st')
    have "classify_exif_file mv k st \<noteq> Return st'"
      by (rule classify_exif_file_cases[where mv=mv and k=k and st=st, OF refl])
         (use Cons.prems(2) in auto)
    with Return show ?thesis by simp
  next
    case (Raise e st')
    with Cons.prems(1) show ?thesis by simp
  qed
qed

lemma metadata_covers:
  assumes meta: "get_exif_metadata (get_file_info (init_info cfg fs0)) = Inr st1"
    and key: "map_of (file_info st1) k = Some r"
  shows "map_of (exif_dic st1) (fst (splitext k)) \<noteq> None"
proof -
  let ?S = "get_file_info (init_info cfg fs0)"
  note m1 = metadata_frame[OF meta]
  from key m1 have rec: "map_of (file_info ?S) k = Some r" by simp
  then have "k \<in> set (map fst (file_info ?S))"
    by (metis map_of_SomeD image_eqI fst_conv set_map)
  from get_exif_loop_covers[OF meta[unfolded get_exif_metadata_def] this rec]
  have "map_of (exif_dic st1) (Name r) \<noteq> None" .
  moreover from scan_entry(3)[OF rec] have "Name r = fst (splitext k)"
    by (metis scan_record_def file_rec.select_convs(1))
  ultimately show ?thesis by simp
qed

lemma camera_model_folder_unbound: "\<not> name_bound m ''camera_model_folder''"
  by (simp add: name_bound_def classify_exif_locals_def module_names_def)

subsection \<open>The catalog keys and the reported moves of an absent key\<close>

lemma main_with_absent_key:
  assumes "f \<notin> set (map fst (file_info (get_file_info (init_info cfg fs0))))"
  shows "map fst (file_info (final_state (main_with mv cfg fs0)))
           = map fst (file_info (get_file_info (init_info cfg fs0))) \<and>
         moves_of f (out (final_state (main_with mv cfg fs0))) = []"
proof -
  let ?S = "get_file_info (init_info cfg fs0)"
  let ?ks = "map fst (file_info ?S)"
  let ?P = "\<lambda>st. map fst (file_info st) = ?ks \<and> moves_of f (out st) = []"
  from get_exif_loop_frame[of ?ks ?S] scan_state(1)[of cfg fs0]
  have P1: "?P (final_state (get_exif_metadata ?S))"
    by (simp add: get_exif_metadata_def)
  show ?thesis
  proof (cases "get_exif_metadata ?S")
    case (Inl a)
    then show ?thesis using P1 by (simp add: main_with_def)
  next
    case (Inr st1)
    with P1 have k1: "map fst (file_info st1) = ?ks" and o1: "moves_of f (out st1) = []"
      by simp_all
    let ?st0 = "st1\<lparr>out := out st1 @ [SelectMode (exif_classify_mode st1)]\<rparr>"
    have f0: "f \<notin> set (map fst (file_info ?st0))" using assms k1 by simp
    from exif_loop_frame[of mv "map fst (file_info ?st0)" ?st0]
      exif_loop_other[OF f0, of mv ?st0] k1 o1
    have P2: "?P (final_state (classify_exif mv st1))"
      by (auto simp: classify_exif_def Let_def moves_of_append)
    show ?thesis
    proof (cases "classify_exif mv st1")
      case (Inl a)
      then show ?thesis using Inr P2 by (simp add: main_with_def)
    next
      case st2: (Inr st2)
      with P2 have k2: "map fst (file_info st2) = ?ks" and o2: "moves_of f (out st2) = []"
        by simp_all
      have f2: "f \<notin> set (map fst (file_info st2))" using assms k2 by simp
      from expand_loop_frame[of mv "map fst (file_info st2)" st2]
        expand_loop_other[OF f2, of mv st2] k2 o2
      have P3: "?P (final_state (classify_expand_name mv st2))"
        by (simp add: classify_expand_name_def)
      show ?thesis
      proof (cases "classify_expand_name mv st2")
        case (Inl a)
        then show ?thesis using Inr st2 P3 by (simp add: main_with_def)
      next
        case (Inr st3)
        then show ?thesis using \<open>get_exif_metadata ?S = Inr st1\<close> st2 P3
          by (simp add: main_with_def moves_of_append)
      qed
    qed
  qed
qed

section \<open>Fields the passes never touch\<close>

lemma get_exif_file_flag:
  "get_exif_file k (set_flag b st) = ctl_flag b (get_exif_file k st)"
  by (auto simp: get_exif_file_def set_flag_def split: option.splits node.splits sum.splits)

lemma classify_exif_file_flag:
  "classify_exif_file mv k (set_flag b st) = ctl_flag b (classify_exif_file mv k st)"
  by (auto simp: classify_exif_file_def set_flag_def Let_def
        split: option.splits sum.splits py_error.splits)

lemma classify_expand_file_flag:
  "classify_expand_file mv k (set_flag b st) = ctl_flag b (classify_expand_file mv k st)"
  by (auto simp: classify_expand_file_def set_flag_def Let_def split: option.splits sum.splits)

lemma get_exif_loop_flag:
  "get_exif_loop ks (set_flag b st) = result_flag b (get_exif_loop ks st)"
proof (induction ks arbitrary: st)
  case Nil
  then show ?case by simp
next
  case (Cons k ks)
  then show ?case
    by (cases "get_exif_file k st") (simp_all add: get_exif_file_flag)
qed

lemma classify_exif_loop_flag:
  "classify_exif_loop mv ks (set_flag b st) = result_flag b (classify_exif_loop mv ks st)"
proof (induction ks arbitrary: st)
  case Nil
  then show ?case by simp
next
  case (Cons k ks)
  then show ?case
    by (cases "classify_exif_file mv k st") (simp_all add: classify_exif_file_flag)
qed

lemma classify_expand_loop_flag:
  "classify_expand_loop mv ks (set_flag b st) = result_flag b (classify_expand_loop mv ks st)"
proof (induction ks arbitrary: st)
  case Nil
  then show ?case by simp
next
  case (Cons k ks)
  then show ?case
    by (cases "classify_expand_file mv k st") (simp_all add: classify_expand_file_flag)
qed

lemma set_flag_fields [simp]:
  "file_info (set_flag b st) = file_info st"
  "exif_classify_mode (set_flag b st) = exif_classify_mode st"
  "out (set_flag b st) = out st"
  by (simp_all add: set_flag_def)

lemma set_flag_out: "(set_flag b st)\<lparr>out := x\<rparr> = set_flag b (st\<lparr>out := x\<rparr>)"
  by (simp add: set_flag_def)

lemma flag_never_read:
  "main_with mv (cfg\<lparr>cfg_classify_by_ext := b\<rparr>) fs0 = result_flag b (main_with mv cfg fs0)"
proof -
  let ?S = "get_file_info (init_info cfg fs0)"
  have s: "get_file_info (init_info (cfg\<lparr>cfg_classify_by_ext := b\<rparr>) fs0) = set_flag b ?S"
    by (simp add: get_file_info_def init_info_def set_flag_def)
  have m: "get_exif_metadata (set_flag b st) = result_flag b (get_exif_metadata st)" for st
    by (simp add: get_exif_metadata_def get_exif_loop_flag)
  have x: "classify_exif mv (set_flag b st) = result_flag b (classify_exif mv st)" for st
    by (simp add: classify_exif_def Let_def set_flag_out classify_exif_loop_flag)
  have e: "classify_expand_name mv (set_flag b st) = result_flag b (classify_expand_name mv st)" for st
    by (simp add: classify_expand_name_def classify_expand_loop_flag)
  show ?thesis
    unfolding main_with_def s m
    by (auto simp: x e set_flag_out split: sum.splits)
qed

lemma expand_step_folder:
  "map_option Folder (map_of (file_info (ctl_state (classify_expand_file mv k st))) f)
     = map_option Folder (map_of (file_info st) f)"
  by (rule classify_expand_file_cases[where mv=mv and k=k and st=st, OF refl])
     (auto simp: update_conv')

lemma expand_loop_folder:
  "map_option Folder (map_of (file_info (final_state (classify_expand_loop mv ks st))) f)
     = map_option Folder (map_of (file_info st) f)"
proof (induction ks arbitrary: st)
  case Nil
  then show ?case by simp
next
  case (Cons k ks)
  show ?case
    using expand_step_folder[where mv=mv and k=k and st=st and f=f] Cons.IH
    by (cases "classify_expand_file mv k st") simp_all
qed

lemma no_extension_not_cataloged:
  assumes "snd (splitext f) = []"
  shows "map_of (file_info (get_file_info (init_info cfg fs0))) f = None \<and>
         map_of (file_info (final_state (main_with mv cfg fs0))) f = None \<and>
         moves_of f (out (final_state (main_with mv cfg fs0))) = []"
proof -
  have none: "map_of (file_info (get_file_info (init_info cfg fs0))) f = None"
    using assms by (simp add: scan_map_of)
  then have absent: "f \<notin> set (map fst (file_info (get_file_info (init_info cfg fs0))))"
    by (simp add: map_of_eq_None_iff)
  from main_with_absent_key[OF absent, of mv] absent
  have "f \<notin> set (map fst (file_info (final_state (main_with mv cfg fs0))))"
    and moves: "moves_of f (out (final_state (main_with mv cfg fs0))) = []"
    by simp_all
  then have "map_of (file_info (final_state (main_with mv cfg fs0))) f = None"
    by (simp add: map_of_eq_None_iff)
  with none moves show ?thesis by simp
qed

section \<open>Paths and the file system, observed at plain paths\<close>

lemma split_sep_plain: "CHR ''/'' \<notin> set s \<Longrightarrow> split_sep s = [s]"
  by (induction s) auto

lemma components_plain: "plain s \<Longrightarrow> components s = [s]"
  by (simp add: components_def plain_def split_sep_plain)

lemma os_path_join_plain: "plain s \<Longrightarrow> os_path_join p s = p @ [s]"
  by (cases s) (auto simp: os_path_join_def components_plain, auto simp: plain_def)

lemma os_path_join_Nil: "os_path_join p [] = p"
  by (simp add: os_path_join_def)

lemma canon_plain:
  "\<forall>c \<in> set p. c \<noteq> ''.'' \<and> c \<noteq> ''..'' \<Longrightarrow> canon n acc p = Inr (acc @ p)"
  by (induction p arbitrary: acc) auto

lemma plain_nodots: "list_all plain p \<Longrightarrow> \<forall>c \<in> set p. c \<noteq> ''.'' \<and> c \<noteq> ''..''"
  by (auto simp: list_all_iff plain_def)

lemma stat_plain: "list_all plain p \<Longrightarrow> stat n p = stat0 n p"
  by (simp add: stat_def canon_plain[OF plain_nodots])


lemma stat0_append:
  "stat0 n (p @ q) = (case stat0 n p of Inl e \<Rightarrow> Inl e | Inr m \<Rightarrow> stat0 m q)"
proof (induction n p rule: stat0.induct)
  case (1 n)
  then show ?case by simp
next
  case (2 t c cs)
  then show ?case by simp
next
  case (3 es c cs)
  then show ?case by (simp split: option.splits)
qed

lemma kind_Nil: "kind n [] = (case n of File t \<Rightarrow> Some (Some t) | Dir es \<Rightarrow> Some None)"
  by (simp add: kind_def)

lemma kind_File_Cons: "kind (File t) (c # cs) = None"
  by (simp add: kind_def)

lemma kind_Dir_Cons:
  "kind (Dir es) (c # cs) = (case map_of es c of None \<Rightarrow> None | Some m \<Rightarrow> kind m cs)"
  by (simp add: kind_def split: option.splits)

lemma kind_prefix_dir: "kind n (p @ q) \<noteq> None \<Longrightarrow> q \<noteq> [] \<Longrightarrow> kind n p = Some None"
  by (cases q) (auto simp: kind_def stat0_append split: sum.splits node.splits)

lemma kind_parent: "kind n p \<noteq> None \<Longrightarrow> p \<noteq> [] \<Longrightarrow> kind n (butlast p) = Some None"
  using kind_prefix_dir[of n "butlast p" "[last p]"] by simp

lemma kind_put_at:
  assumes "kind n (butlast d) = Some None" and "d \<noteq> []" and "kind n d \<noteq> Some None"
    and "\<forall>q. q \<noteq> [] \<longrightarrow> kind x q = None"
  shows "kind (put_at n d x) q = (if q = d then kind x [] else kind n q)"
  using assms
proof (induction d arbitrary: n q)
  case Nil
  then show ?case by simp
next
  case (Cons c cs)
  from Cons.prems(1) obtain es where n: "n = Dir es"
    by (cases n; cases cs) (auto simp: kind_File_Cons kind_Nil)
  show ?case
  proof (cases cs)
    case Nil
    show ?thesis
    proof (cases q)
      case qn: Nil
      then show ?thesis using n Nil by (simp add: kind_Nil)
    next
      case (Cons c' q')
      then show ?thesis using n Nil Cons.prems(3,4)
        by (cases q') (auto simp: kind_Dir_Cons update_conv' kind_Nil kind_File_Cons split: option.splits node.splits)
    qed
  next
    case cs: (Cons c2 cs')
    from Cons.prems(1) n cs obtain m where m: "map_of es c = Some m"
      and pm: "kind m (butlast cs) = Some None"
      by (auto simp: kind_Dir_Cons split: option.splits)
    from Cons.prems(3) n m have nd: "kind m cs \<noteq> Some None" by (simp add: kind_Dir_Cons)
    have csne: "cs \<noteq> []" using cs by simp
    note IH = Cons.IH[OF pm csne nd Cons.prems(4)]
    show ?thesis
    proof (cases q)
      case Nil
      then show ?thesis using n cs m by (simp add: kind_Nil)
    next
      case (Cons c' q')
      then show ?thesis using n cs m IH[of q']
        by (auto simp: kind_Dir_Cons update_conv')
    qed
  qed
qed

lemma kind_remove_at:
  assumes "kind n s = Some (Some t)" and "s \<noteq> []"
  shows "kind (remove_at n s) q = (if q = s then None else kind n q)"
  using assms
proof (induction s arbitrary: n q)
  case Nil
  then show ?case by simp
next
  case (Cons c cs)
  from Cons.prems(1) obtain es where n: "n = Dir es"
    by (cases n) (auto simp: kind_File_Cons)
  from Cons.prems(1) n obtain m where m: "map_of es c = Some m"
    and km: "kind m cs = Some (Some t)"
    by (auto simp: kind_Dir_Cons split: option.splits)
  show ?case
  proof (cases cs)
    case Nil
    with km obtain "m = File t" by (cases m) (auto simp: kind_Nil)
    show ?thesis
    proof (cases q)
      case qn: Nil
      then show ?thesis using n Nil by (simp add: kind_Nil)
    next
      case (Cons c' q')
      then show ?thesis using n Nil m \<open>m = File t\<close>
        by (cases q') (auto simp: kind_Dir_Cons delete_conv' kind_Nil kind_File_Cons split: option.splits)
    qed
  next
    case cs: (Cons c2 cs')
    have csne: "cs \<noteq> []" using cs by simp
    note IH = Cons.IH[OF km csne]
    show ?thesis
    proof (cases q)
      case Nil
      then show ?thesis using n cs m by (simp add: kind_Nil)
    next
      case (Cons c' q')
      then show ?thesis using n cs m IH[of q']
        by (auto simp: kind_Dir_Cons update_conv')
    qed
  qed
qed

lemma kind_dir_stat0: "kind n p = Some None \<longleftrightarrow> (\<exists>es. stat0 n p = Inr (Dir es))"
  by (auto simp: kind_def split: sum.splits node.splits)

lemma kind_file_stat0: "kind n p = Some (Some t) \<longleftrightarrow> stat0 n p = Inr (File t)"
  by (auto simp: kind_def split: sum.splits node.splits)

lemma mk_seq_enter:
  "kind n (acc @ p) = Some None \<Longrightarrow> \<forall>c \<in> set p. c \<noteq> ''.'' \<and> c \<noteq> ''..'' \<Longrightarrow>
   mk_seq n acc (p @ rest) = mk_seq n (acc @ p) rest"
proof (induction p arbitrary: acc)
  case Nil
  then show ?case by simp
next
  case (Cons c p)
  have "kind n (acc @ [c]) = Some None"
  proof (cases p)
    case Nil
    with Cons.prems(1) show ?thesis by simp
  next
    case (Cons c' p')
    from kind_prefix_dir[of n "acc @ [c]" p] Cons.prems(1) Cons show ?thesis by simp
  qed
  then obtain es where "stat0 n (acc @ [c]) = Inr (Dir es)"
    by (auto simp: kind_dir_stat0)
  moreover from Cons.prems have "mk_seq n ((acc @ [c]) @ p) rest = mk_seq n (acc @ [c]) (p @ rest)"
    using Cons.IH[of "acc @ [c]"] by simp
  ultimately show ?case using Cons.prems(2) by simp
qed

lemma mk_seq_last:
  assumes "kind n acc = Some None" and "c \<noteq> ''.''" and "c \<noteq> ''..''"
    and "mk_seq n acc [c] = Inr (n', q)"
  shows "q = acc @ [c] \<and> (\<forall>p. kind n' p = (if p = acc @ [c] then Some None else kind n p))"
proof (cases "stat0 n (acc @ [c])")
  case (Inr m)
  show ?thesis
  proof (cases m)
    case (File t)
    with Inr assms show ?thesis by simp
  next
    case (Dir es)
    with Inr assms have "n' = n" "q = acc @ [c]" by simp_all
    moreover have "kind n (acc @ [c]) = Some None" using Inr Dir by (simp add: kind_def)
    ultimately show ?thesis by simp
  qed
next
  case (Inl e)
  show ?thesis
  proof (cases "e = FileNotFoundError")
    case True
    with Inl assms have "n' = put_at n (acc @ [c]) (Dir []) \<and> q = acc @ [c]"
      by auto
    then have n': "n' = put_at n (acc @ [c]) (Dir [])" and q: "q = acc @ [c]"
      by simp_all
    have k: "kind n (acc @ [c]) \<noteq> Some None" using Inl by (simp add: kind_def)
    have x: "\<forall>q. q \<noteq> [] \<longrightarrow> kind (Dir []) q = None"
      by (auto simp: kind_def neq_Nil_conv)
    from kind_put_at[of n "acc @ [c]" "Dir []", OF _ _ k x] assms(1)
    have "kind n' p = (if p = acc @ [c] then Some None else kind n p)" for p
      by (simp add: n' kind_Nil)
    with q show ?thesis by simp
  next
    case False
    with Inl assms show ?thesis by (cases e) simp_all
  qed
qed

lemma plain_path_nodots: "list_all plain p \<Longrightarrow> c \<in> set p \<Longrightarrow> c \<noteq> ''.'' \<and> c \<noteq> ''..''"
  by (auto simp: list_all_iff plain_def)

lemma os_makedirs_existing:
  assumes "kind n D = Some None" and "list_all plain D" and "os_makedirs n D = Inr n'"
  shows "n' = n"
proof -
  from assms(1) have root: "kind n [] = Some None"
    using kind_prefix_dir[of n "[]" D] by (cases D) auto
  then obtain es where n: "n = Dir es" by (cases n) (auto simp: kind_Nil)
  from mk_seq_enter[of n "[]" D "[]"] assms(1,2)
  have "mk_seq n [] D = Inr (n, D)" by (simp add: plain_path_nodots)
  with assms(3) n show ?thesis by (simp add: os_makedirs_def)
qed

lemma os_makedirs_child:
  assumes "kind n D = Some None" and "list_all plain D" and "plain c"
    and "os_makedirs n (D @ [c]) = Inr n'"
  shows "kind n' p = (if p = D @ [c] then Some None else kind n p)"
proof -
  from assms(1) have root: "kind n [] = Some None"
    using kind_prefix_dir[of n "[]" D] by (cases D) auto
  then obtain es where n: "n = Dir es" by (cases n) (auto simp: kind_Nil)
  from mk_seq_enter[of n "[]" D "[c]"] assms(1,2)
  have e: "mk_seq n [] (D @ [c]) = mk_seq n D [c]" by (simp add: plain_path_nodots)
  from assms(4) n e obtain q where "mk_seq n D [c] = Inr (n', q)"
    by (auto simp: os_makedirs_def split: sum.splits)
  from mk_seq_last[OF assms(1) _ _ this] assms(3) show ?thesis
    by (simp add: plain_def)
qed

lemma is_dir_lookup_plain: "list_all plain p \<Longrightarrow> is_dir (lookup n p) \<longleftrightarrow> kind n p = Some None"
  by (auto simp: lookup_def stat_plain kind_def split: sum.splits node.splits)

lemma move_file_plain:
  assumes "list_all plain d" and "kind n (butlast d) = Some None" and "kind n d \<noteq> Some None"
  shows "move_file n s t d = Inr (if d = s then n else put_at (remove_at n s) d (File t))"
proof -
  from assms(2) obtain ps where ps: "stat0 n (butlast d) = Inr (Dir ps)"
    by (auto simp: kind_dir_stat0)
  from assms(3) have nd: "\<And>ds. stat0 n d \<noteq> Inr (Dir ds)" by (auto simp: kind_dir_stat0)
  show ?thesis
    using ps nd canon_plain[OF plain_nodots[OF assms(1)], of n "[]"]
    by (auto simp: move_file_def split: sum.splits node.splits)
qed

lemma shutil_move_file:
  assumes "list_all plain s" and "list_all plain d" and "kind n s = Some (Some t)"
    and "kind n (butlast d) = Some None" and "kind n d \<noteq> Some None"
  shows "shutil_move n s d = Inr (if d = s then n else put_at (remove_at n s) d (File t))"
proof -
  have nd: "\<not> is_dir (lookup n d)" using assms(2,5) by (simp add: is_dir_lookup_plain)
  have cs: "canon n [] s = Inr s" using canon_plain[OF plain_nodots[OF assms(1)], of n "[]"] by simp
  have ss: "stat n s = Inr (File t)" using assms(1,3) by (simp add: stat_plain kind_file_stat0)
  show ?thesis
    unfolding shutil_move_def Let_def
    using nd cs ss move_file_plain[OF assms(2,4,5)] by simp
qed

lemma shutil_move_effect:
  assumes "list_all plain s" and "list_all plain d" and "kind n s = Some (Some t)"
    and "s \<noteq> []" and "d \<noteq> []"
    and "kind n (butlast d) = Some None" and "kind n d \<noteq> Some None"
  shows "\<exists>n'. shutil_move n s d = Inr n' \<and>
           (\<forall>q. kind n' q = (if q = d then Some (Some t) else if q = s then None else kind n q))"
proof (cases "d = s")
  case True
  with shutil_move_file[OF assms(1,2,3,6,7)] assms(3) show ?thesis by auto
next
  case False
  let ?m = "remove_at n s"
  have r: "kind ?m q = (if q = s then None else kind n q)" for q
    by (rule kind_remove_at[OF assms(3,4)])
  have bs: "butlast d \<noteq> s" using assms(3,6) by auto
  have p1: "kind ?m (butlast d) = Some None" using r[of "butlast d"] bs assms(6) by simp
  have p2: "kind ?m d \<noteq> Some None" using r[of d] assms(7) by simp
  have x: "\<forall>q. q \<noteq> [] \<longrightarrow> kind (File t) q = None"
    by (auto simp: kind_File_Cons neq_Nil_conv)
  from kind_put_at[OF p1 assms(5) p2 x]
  have "kind (put_at ?m d (File t)) q = (if q = d then Some (Some t) else if q = s then None else kind n q)" for q
    by (simp add: r kind_Nil)
  with shutil_move_file[OF assms(1,2,3,6,7)] False show ?thesis by auto
qed

lemma dirlike_plain: "dirlike c \<Longrightarrow> plain c"
  by (simp add: dirlike_def)

lemma dirlike_list_plain: "list_all dirlike p \<Longrightarrow> list_all plain p"
  by (simp add: list_all_iff dirlike_def)

section \<open>A move of a regular file into a folder\<close>

lemma dirs_okD: "dirs_ok n \<Longrightarrow> kind n p = Some None \<Longrightarrow> list_all dirlike p"
  by (simp add: dirs_ok_def)

lemma file_move_core:
  assumes dirs: "dirs_ok n"
    and src: "kind n s = Some (Some t)" "s \<noteq> []" "last s = k" "plain k" "snd (splitext k) \<noteq> []"
    and D: "kind n D = Some None"
    and c: "c = [] \<or> dirlike c"
    and mk: "os_makedirs n (os_path_join D c) = Inr n1"
  shows "\<exists>n2. shutil_move n1 s (os_path_join (os_path_join D c) k) = Inr n2 \<and>
          os_path_join (os_path_join D c) k = os_path_join D c @ [k] \<and>
          os_path_join D c = (if c = [] then D else D @ [c]) \<and>
          kind n2 (os_path_join D c @ [k]) = Some (Some t) \<and>
          kind n2 (os_path_join D c) = Some None \<and>
          (s \<noteq> os_path_join D c @ [k] \<longrightarrow> kind n2 s = None) \<and>
          dirs_ok n2 \<and>
          (\<forall>p. kind n p = Some None \<longrightarrow> kind n2 p = Some None) \<and>
          (\<forall>p. p \<noteq> [] \<and> p \<noteq> s \<and> p \<noteq> os_path_join D c @ [k] \<and> snd (splitext (last p)) \<noteq> []
             \<longrightarrow> kind n2 p = kind n p)"
proof -
  let ?D = "os_path_join D c"
  let ?d = "?D @ [k]"
  have notdir: "\<not> dirlike k" using src(5) by (simp add: dirlike_def)
  have Dd: "list_all dirlike D" by (rule dirs_okD[OF dirs D])
  then have Dp: "list_all plain D" by (rule dirlike_list_plain)
  have De: "?D = (if c = [] then D else D @ [c])"
    using c by (auto simp: os_path_join_Nil os_path_join_plain dirlike_plain)
  have D'd: "list_all dirlike ?D" using De Dd c by auto
  then have D'p: "list_all plain ?D" by (rule dirlike_list_plain)
  have k1: "kind n1 q = (if q = ?D then Some None else kind n q)" for q
  proof (cases "c = []")
    case True
    with mk have "os_makedirs n D = Inr n1" by (simp add: os_path_join_Nil)
    from os_makedirs_existing[OF D Dp this] True D show ?thesis
      by (auto simp: os_path_join_Nil)
  next
    case False
    with c have dc: "dirlike c" by simp
    with mk De False have "os_makedirs n (D @ [c]) = Inr n1" by simp
    from os_makedirs_child[OF D Dp dirlike_plain[OF dc] this] De False show ?thesis by simp
  qed
  have dj: "os_path_join ?D k = ?d" using src(4) by (simp add: os_path_join_plain)
  have bs: "kind n (butlast s) = Some None" using kind_parent[of n s] src(1,2) by simp
  have "list_all dirlike (butlast s)" by (rule dirs_okD[OF dirs bs])
  then have bp: "list_all plain (butlast s)" by (rule dirlike_list_plain)
  have sb: "butlast s @ [k] = s" using src(2,3) by (metis append_butlast_last_id)
  have "list_all plain (butlast s @ [k])" using bp src(4) by simp
  then have sp: "list_all plain s" unfolding sb .
  have sD: "s \<noteq> ?D"
  proof
    assume "s = ?D"
    with D'd have "list_all dirlike s" by simp
    with src(2,3) have "dirlike k" by (metis last_in_set list_all_iff)
    with notdir show False ..
  qed
  have dnd: "kind n ?d \<noteq> Some None"
  proof
    assume "kind n ?d = Some None"
    from dirs_okD[OF dirs this] have "dirlike k" by simp
    with notdir show False ..
  qed
  have dD: "?d \<noteq> ?D" by simp
  have dp: "list_all plain ?d" using D'p src(4) by simp
  have s1: "kind n1 s = Some (Some t)" using k1[of s] sD src(1) by simp
  have b1: "kind n1 (butlast ?d) = Some None" using k1[of ?D] by simp
  have d1: "kind n1 ?d \<noteq> Some None" using k1[of ?d] dD dnd by simp
  from shutil_move_effect[OF sp dp s1 src(2) _ b1 d1]
  obtain n2 where mv: "shutil_move n1 s ?d = Inr n2"
    and k2: "\<And>q. kind n2 q = (if q = ?d then Some (Some t) else if q = s then None else kind n1 q)"
    by auto
  have e: "kind n2 q = (if q = ?d then Some (Some t) else if q = s then None
                         else if q = ?D then Some None else kind n q)" for q
    by (simp add: k2 k1)
  have f1: "kind n2 ?d = Some (Some t)" by (simp add: e)
  have f2: "kind n2 ?D = Some None" using e[of ?D] sD by simp
  have f3: "s \<noteq> ?d \<longrightarrow> kind n2 s = None" by (simp add: e)
  have f4: "dirs_ok n2"
    unfolding dirs_ok_def
  proof (intro allI impI)
    fix p assume p: "kind n2 p = Some None"
    show "list_all dirlike p"
    proof (cases "p = ?D")
      case True
      with D'd show ?thesis by simp
    next
      case False
      with p e[of p] have "kind n p = Some None" by (auto split: if_splits)
      from dirs_okD[OF dirs this] show ?thesis .
    qed
  qed
  have f5: "\<forall>p. kind n p = Some None \<longrightarrow> kind n2 p = Some None"
  proof (intro allI impI)
    fix p assume p: "kind n p = Some None"
    with dnd src(1) have "p \<noteq> ?d" "p \<noteq> s" by auto
    with e[of p] p show "kind n2 p = Some None" by simp
  qed
  have f6: "\<forall>p. p \<noteq> [] \<and> p \<noteq> s \<and> p \<noteq> ?d \<and> snd (splitext (last p)) \<noteq> [] \<longrightarrow> kind n2 p = kind n p"
  proof (intro allI impI)
    fix p assume p: "p \<noteq> [] \<and> p \<noteq> s \<and> p \<noteq> ?d \<and> snd (splitext (last p)) \<noteq> []"
    have "p \<noteq> ?D"
    proof
      assume "p = ?D"
      with D'd have "list_all dirlike p" by simp
      with p have "dirlike (last p)" by (metis last_in_set list_all_iff)
      with p show False by (simp add: dirlike_def)
    qed
    with e[of p] p show "kind n2 p = kind n p" by simp
  qed
  from mv dj De f1 f2 f3 f4 f5 f6 show ?thesis by simp
qed

section \<open>Runs over a tidy tree\<close>


lemma run_invD: "run_inv st \<Longrightarrow> map_of (file_info st) k = Some r \<Longrightarrow> ok_rec (fs st) k r"
  by (simp add: run_inv_def)

lemma ok_rec_keep:
  assumes "ok_rec n k' r" and "\<forall>p. kind n p = Some None \<longrightarrow> kind n2 p = Some None"
    and "kind n2 (Path r) = kind n (Path r)"
  shows "ok_rec n2 k' r"
  using assms by (auto simp: ok_rec_def)






text \<open>One successful step, described.\<close>

lemma moved_state:
  assumes inv: "run_inv st"
    and rec: "map_of (file_info st) k = Some r"
    and t: "kind (fs st) (Path r) = Some (Some t)"
    and D: "kind (fs st) D = Some None"
    and c: "c = [] \<or> dirlike c"
    and mk: "os_makedirs (fs st) (os_path_join D c) = Inr fs1"
    and r': "Path r' = os_path_join (os_path_join D c) k" "ext r' = ext r"
       "Folder r' = Folder r \<or> Folder r' = os_path_join D c"
  shows "\<exists>fs2. shutil_move fs1 (Path r) (os_path_join (os_path_join D c) k) = Inr fs2 \<and>
          os_path_join (os_path_join D c) k = (if c = [] then D else D @ [c]) @ [k] \<and>
          os_path_join D c = (if c = [] then D else D @ [c]) \<and>
          (\<forall>evs. run_inv (st\<lparr>fs := fs2, out := evs, file_info := AList.update k r' (file_info st)\<rparr>)) \<and>
          kind fs2 (Path r') = Some (Some t) \<and>
          (Path r \<noteq> Path r' \<longrightarrow> kind fs2 (Path r) = None) \<and>
          (\<forall>p. p \<noteq> [] \<and> p \<noteq> Path r \<and> p \<noteq> Path r' \<and> snd (splitext (last p)) \<noteq> []
             \<longrightarrow> kind fs2 p = kind (fs st) p)"
proof -
  from run_invD[OF inv rec] have ok: "ok_rec (fs st) k r" .
  then have src: "Path r \<noteq> []" "last (Path r) = k" "plain k" "snd (splitext k) \<noteq> []"
    and F: "kind (fs st) (Folder r) = Some None" and e: "ext r = [] \<or> dirlike (ext r)"
    by (simp_all add: ok_rec_def)
  from inv have dirs: "dirs_ok (fs st)" by (simp add: run_inv_def)
  from file_move_core[OF dirs t src D c mk]
  obtain fs2 where mv: "shutil_move fs1 (Path r) (os_path_join (os_path_join D c) k) = Inr fs2"
    and dj: "os_path_join (os_path_join D c) k = os_path_join D c @ [k]"
    and De: "os_path_join D c = (if c = [] then D else D @ [c])"
    and f1: "kind fs2 (os_path_join D c @ [k]) = Some (Some t)"
    and f2: "kind fs2 (os_path_join D c) = Some None"
    and f3: "Path r \<noteq> os_path_join D c @ [k] \<longrightarrow> kind fs2 (Path r) = None"
    and f4: "dirs_ok fs2"
    and f5: "\<forall>p. kind (fs st) p = Some None \<longrightarrow> kind fs2 p = Some None"
    and f6: "\<forall>p. p \<noteq> [] \<and> p \<noteq> Path r \<and> p \<noteq> os_path_join D c @ [k] \<and> snd (splitext (last p)) \<noteq> []
             \<longrightarrow> kind fs2 p = kind (fs st) p"
    by blast
  have P': "Path r' = os_path_join D c @ [k]" using r'(1) dj by simp
  have okk: "ok_rec fs2 k r'"
    using src e r'(2,3) P' f1 f2 f5 F by (auto simp: ok_rec_def)
  have inv': "run_inv (st\<lparr>fs := fs2, out := evs, file_info := AList.update k r' (file_info st)\<rparr>)" for evs
    unfolding run_inv_def
  proof (intro conjI allI impI)
    show "dirs_ok (fs (st\<lparr>fs := fs2, out := evs, file_info := AList.update k r' (file_info st)\<rparr>))"
      using f4 by simp
  next
    fix k' r''
    assume a: "map_of (file_info (st\<lparr>fs := fs2, out := evs, file_info := AList.update k r' (file_info st)\<rparr>)) k' = Some r''"
    show "ok_rec (fs (st\<lparr>fs := fs2, out := evs, file_info := AList.update k r' (file_info st)\<rparr>)) k' r''"
    proof (cases "k' = k")
      case True
      with a have "r'' = r'" by (simp add: update_conv')
      with okk True show ?thesis by simp
    next
      case False
      with a have m: "map_of (file_info st) k' = Some r''" by (simp add: update_conv')
      from run_invD[OF inv m] have o': "ok_rec (fs st) k' r''" .
      then have "Path r'' \<noteq> []" "last (Path r'') = k'" "snd (splitext k') \<noteq> []"
        by (simp_all add: ok_rec_def)
      with False src(2) P' have "Path r'' \<noteq> Path r" "Path r'' \<noteq> os_path_join D c @ [k]"
        by auto
      with f6 \<open>Path r'' \<noteq> []\<close> \<open>last (Path r'') = k'\<close> \<open>snd (splitext k') \<noteq> []\<close>
      have "kind fs2 (Path r'') = kind (fs st) (Path r'')" by simp
      from ok_rec_keep[OF o' f5 this] show ?thesis by simp
    qed
  qed
  from mv dj De inv' f1 f3 f6 P' show ?thesis by auto
qed

lemma moved_state_sum:
  assumes inv: "run_inv st"
    and rec: "map_of (file_info st) k = Some r"
    and D: "kind (fs st) D = Some None"
    and c: "c = [] \<or> dirlike c"
    and mk: "os_makedirs (fs st) (os_path_join D c) = Inr fs1"
    and r': "Path r' = os_path_join (os_path_join D c) k" "ext r' = ext r"
       "Folder r' = Folder r \<or> Folder r' = os_path_join D c"
  shows "\<exists>fs2. shutil_move fs1 (Path r) (os_path_join (os_path_join D c) k) = Inr fs2 \<and>
          run_inv (st\<lparr>fs := fs2, out := out st @ [Moved k (Path r) (Path r')],
                      file_info := AList.update k r' (file_info st)\<rparr>) \<and>
          moved_to k r r' st
            (st\<lparr>fs := fs2, out := out st @ [Moved k (Path r) (Path r')],
                file_info := AList.update k r' (file_info st)\<rparr>) \<and>
          (\<forall>f. f \<noteq> k \<and> snd (splitext f) \<noteq> [] \<longrightarrow>
             same_for f st
               (st\<lparr>fs := fs2, out := out st @ [Moved k (Path r) (Path r')],
                   file_info := AList.update k r' (file_info st)\<rparr>))"
proof -
  from run_invD[OF inv rec] have ok: "ok_rec (fs st) k r" .
  then obtain t where t: "kind (fs st) (Path r) = Some (Some t)" by (auto simp: ok_rec_def)
  from ok have src: "Path r \<noteq> []" "last (Path r) = k" "plain k" "snd (splitext k) \<noteq> []"
    by (simp_all add: ok_rec_def)
  from moved_state[OF inv rec t D c mk r']
  obtain fs2 where mv: "shutil_move fs1 (Path r) (os_path_join (os_path_join D c) k) = Inr fs2"
    and dj: "os_path_join (os_path_join D c) k = (if c = [] then D else D @ [c]) @ [k]"
    and inv': "\<And>evs. run_inv (st\<lparr>fs := fs2, out := evs, file_info := AList.update k r' (file_info st)\<rparr>)"
    and f1: "kind fs2 (Path r') = Some (Some t)"
    and f3: "Path r \<noteq> Path r' \<longrightarrow> kind fs2 (Path r) = None"
    and f6: "\<forall>p. p \<noteq> [] \<and> p \<noteq> Path r \<and> p \<noteq> Path r' \<and> snd (splitext (last p)) \<noteq> []
             \<longrightarrow> kind fs2 p = kind (fs st) p"
    by blast
  let ?S = "st\<lparr>fs := fs2, out := out st @ [Moved k (Path r) (Path r')],
                file_info := AList.update k r' (file_info st)\<rparr>"
  have l': "last (Path r') = k" using r'(1) dj by simp
  have m: "moved_to k r r' st ?S"
    unfolding moved_to_def using rec t f1 f3 f6 src(4)
    by (auto simp: update_conv' moves_of_append)
  have s: "same_for f st ?S" if "f \<noteq> k \<and> snd (splitext f) \<noteq> []" for f
    unfolding same_for_def using that f6 src(2) l'
    by (auto simp: update_conv' moves_of_append)
  from mv inv' m s show ?thesis by blast
qed

subsection \<open>A step of the EXIF pass\<close>






subsection \<open>A step of the extension pass\<close>

lemma expand_moved:
  assumes inv: "run_inv st"
    and rec: "map_of (file_info st) k = Some r"
    and mk: "os_makedirs (fs st) (os_path_join (Folder r) (ext r)) = Inr fs1"
  shows "\<exists>fs2. shutil_move fs1 (Path r) (expand_target r k) = Inr fs2 \<and>
          run_inv (st\<lparr>fs := fs2, out := out st @ [Moved k (Path r) (expand_target r k)],
                      file_info := AList.update k (r\<lparr>Path := expand_target r k\<rparr>) (file_info st)\<rparr>) \<and>
          moved_to k r (r\<lparr>Path := expand_target r k\<rparr>) st
            (st\<lparr>fs := fs2, out := out st @ [Moved k (Path r) (expand_target r k)],
                file_info := AList.update k (r\<lparr>Path := expand_target r k\<rparr>) (file_info st)\<rparr>) \<and>
          (\<forall>f. f \<noteq> k \<and> snd (splitext f) \<noteq> [] \<longrightarrow>
             same_for f st
               (st\<lparr>fs := fs2, out := out st @ [Moved k (Path r) (expand_target r k)],
                   file_info := AList.update k (r\<lparr>Path := expand_target r k\<rparr>) (file_info st)\<rparr>))"
proof -
  from run_invD[OF inv rec] have D: "kind (fs st) (Folder r) = Some None"
    and c: "ext r = [] \<or> dirlike (ext r)"
    by (simp_all add: ok_rec_def)
  from moved_state_sum[OF inv rec D c mk, of "r\<lparr>Path := expand_target r k\<rparr>"]
  show ?thesis by (simp add: expand_target_def)
qed

lemma expand_step_inv:
  assumes inv: "run_inv st"
  shows "run_inv (ctl_state (classify_expand_file shutil_move k st))"
proof (rule classify_expand_file_cases[where mv=shutil_move and k=k and st=st, OF refl], goal_cases)
  case 1
  with inv show ?case by simp
next
  case (2 r e)
  with inv show ?case by simp
next
  case (3 r fs1 fs2)
  from expand_moved[OF inv 3(1,2)] obtain fs2' where
    m: "shutil_move fs1 (Path r) (expand_target r k) = Inr fs2'"
    and i: "run_inv (st\<lparr>fs := fs2', out := out st @ [Moved k (Path r) (expand_target r k)],
                      file_info := AList.update k (r\<lparr>Path := expand_target r k\<rparr>) (file_info st)\<rparr>)"
    by blast
  from m 3(3) have "fs2' = fs2" by simp
  with i show ?case unfolding 3(4) by simp
next
  case (4 r fs1 e)
  from expand_moved[OF inv 4(1,2)] obtain fs2' where
    m: "shutil_move fs1 (Path r) (expand_target r k) = Inr fs2'"
    by blast
  with 4(3) show ?case by simp
qed







subsection \<open>The loops\<close>




lemma expand_loop_inv:
  "run_inv st \<Longrightarrow> run_inv (final_state (classify_expand_loop shutil_move ks st))"
proof (induction ks arbitrary: st)
  case Nil
  then show ?case by simp
next
  case (Cons k ks)
  note i1 = expand_step_inv[OF Cons.prems, of k]
  show ?case
  proof (cases "classify_expand_file shutil_move k st")
    case (Next st')
    with i1 Cons.IH[of st'] show ?thesis by simp
  next
    case (Return st')
    with i1 show ?thesis by simp
  next
    case (Raise e st')
    with i1 show ?thesis by simp
  qed
qed



subsection \<open>Tidy trees and the scan\<close>























section \<open>The claims\<close>

text \<open>
  Claim C1 (the extension pass runs only when \<open>classify_by_ext\<close> is true) against the
  code: \<open>main\<close> stores the flag in \<open>is_ext_classify\<close> and calls \<open>classify_expand_name\<close>
  without reading it. With the flag false and EXIF classification off, the photo
  \<open>d/a.jpg\<close> is still moved into the extension folder \<open>d/jpg/\<close>; and for every
  configuration, tree and move primitive, changing the flag changes nothing of the run but
  the stored field.
\<close>

theorem extension_pass_runs_with_flag_off:
  "(case main (policy False []) fs_one of
      Inl a \<Rightarrow> False
    | Inr st \<Rightarrow>
        is_ext_classify st = False \<and>
        out st = [Moved ''a.jpg'' [''d'', ''a.jpg''] [''d'', ''jpg'', ''a.jpg''], Finished] \<and>
        lookup (fs st) [''d'', ''a.jpg''] = None \<and>
        lookup (fs st) [''d'', ''jpg'', ''a.jpg''] = Some photo) \<and>
   main_with mv (cfg\<lparr>cfg_classify_by_ext := b\<rparr>) fs0 = result_flag b (main_with mv cfg fs0)"
proof -
  have "(case main (policy False []) fs_one of
      Inl a \<Rightarrow> False
    | Inr st \<Rightarrow>
        is_ext_classify st = False \<and>
        out st = [Moved ''a.jpg'' [''d'', ''a.jpg''] [''d'', ''jpg'', ''a.jpg''], Finished] \<and>
        lookup (fs st) [''d'', ''a.jpg''] = None \<and>
        lookup (fs st) [''d'', ''jpg'', ''a.jpg''] = Some photo)"
    by code_simp
  then show ?thesis by (simp add: flag_never_read)
qed

text \<open>
  Claim C2 (a missing capture-timestamp tag gives a typed result and the run goes on)
  against the code: the tag is read unguarded, so a file without it ends the whole run
  with \<open>AttributeError\<close> during metadata extraction. Under the extension-only policy the
  text file \<open>d/notes.txt\<close> is not classified by extension: nothing is moved or printed.
\<close>

theorem missing_tag_aborts_run:
  "(case main (policy True []) fs_text of
      Inl (e, st) \<Rightarrow> e = AttributeError \<and> fs st = fs_text \<and> out st = [] \<and> exif_dic st = []
    | Inr st \<Rightarrow> False)"
  by code_simp

text \<open>
  Claim C3 (an occupied destination is rejected with AlreadyExists, that file alone is
  skipped, and the occupant is left intact) against the code, on catalogs that hold
  \<open>d/a.jpg\<close> while the destination of its move exists already. With \<open>shutil.move\<close>
  either pass reports a successful move and the occupant is replaced by the moved file.
  With a move that refuses the occupied destination, the handler of \<open>FileExistsError\<close> in
  the EXIF pass ends the run with \<open>NameError\<close>; only the extension pass, whose handler
  catches every exception, reports the failure and goes on.
\<close>

theorem occupied_destination_is_overwritten:
  "lookup (fs info_occupied) [''d'', ''CameraX'', ''a.jpg''] = Some other_photo \<and>
   (case classify_exif shutil_move info_occupied of
      Inl a \<Rightarrow> False
    | Inr st \<Rightarrow>
        out st = [SelectMode ''0'',
                  Moved ''a.jpg'' [''d'', ''a.jpg''] [''d'', ''CameraX'', ''a.jpg'']] \<and>
        lookup (fs st) [''d'', ''a.jpg''] = None \<and>
        lookup (fs st) [''d'', ''CameraX'', ''a.jpg''] = Some photo) \<and>
   lookup (fs info_occupied_ext) [''d'', ''jpg'', ''a.jpg''] = Some other_photo \<and>
   (case classify_expand_name shutil_move info_occupied_ext of
      Inl a \<Rightarrow> False
    | Inr st \<Rightarrow>
        out st = [Moved ''a.jpg'' [''d'', ''a.jpg''] [''d'', ''jpg'', ''a.jpg'']] \<and>
        lookup (fs st) [''d'', ''a.jpg''] = None \<and>
        lookup (fs st) [''d'', ''jpg'', ''a.jpg''] = Some photo) \<and>
   (case classify_exif exclusive_move info_occupied of
      Inl (e, st) \<Rightarrow> e = NameError \<and> out st = [SelectMode ''0'']
    | Inr st \<Rightarrow> False) \<and>
   (case classify_expand_name exclusive_move info_occupied_ext of
      Inl a \<Rightarrow> False
    | Inr st \<Rightarrow>
        out st = [FailedToMove ''a.jpg'' FileExistsError] \<and> fs st = fs_occupied_ext)"
  by code_simp







text \<open>
  Claim C6 as stated (every run with an unsupported EXIF mode signals the error and
  aborts) fails: the mode is examined inside the loop, for a file that has an EXIF record.
  Over an empty directory the run with mode \<open>"2"\<close> completes and reports that it finished.
\<close>

theorem unsupported_mode_empty_catalog_counterexample:
  "main (policy True ''2'') fs_empty =
     Inr ((init_info (policy True ''2'') fs_empty)\<lparr>out := [SelectMode ''2'', Finished]\<rparr>)"
  by code_simp

text \<open>
  Claim C6, amended. Let the EXIF mode be a non-empty string other than \<open>"0"\<close> and \<open>"1"\<close>,
  and let metadata extraction succeed. If the catalog holds at least one file, the EXIF
  pass prints the mode and the unsupported-mode line and raises at the first file, with the
  file system as it was given: no file has been moved and the extension pass is not
  reached. If the catalog is empty the run completes without signalling anything.
\<close>

theorem unsupported_mode_aborts_at_first_file:
  assumes m0: "cfg_exif_mode cfg \<noteq> []"
    and m1: "cfg_exif_mode cfg \<noteq> ''0''"
    and m2: "cfg_exif_mode cfg \<noteq> ''1''"
    and meta: "get_exif_metadata (get_file_info (init_info cfg fs0)) = Inr st1"
  shows "fs st1 = fs0 \<and>
         main_with mv cfg fs0 =
           (if file_info st1 = []
            then Inr (st1\<lparr>out := [SelectMode (cfg_exif_mode cfg), Finished]\<rparr>)
            else Inl (RuntimeError,
                      st1\<lparr>out := [SelectMode (cfg_exif_mode cfg),
                                  UnsupportedMode (cfg_exif_mode cfg)]\<rparr>))"
proof -
  note fr = metadata_frame[OF meta]
  have mode1: "exif_classify_mode st1 = cfg_exif_mode cfg" and out1: "out st1 = []"
    and fs1: "fs st1 = fs0"
    using fr scan_state[of cfg fs0] by simp_all
  let ?st0 = "st1\<lparr>out := [SelectMode (cfg_exif_mode cfg)]\<rparr>"
  have cx: "classify_exif mv st1 = classify_exif_loop mv (map fst (file_info st1)) ?st0"
    using m0 mode1 out1 by (simp add: classify_exif_def)
  show ?thesis
  proof (cases "file_info st1")
    case Nil
    then have "classify_exif mv st1 = Inr ?st0" using cx by simp
    moreover have "classify_expand_name mv ?st0 = Inr ?st0"
      using Nil by (simp add: classify_expand_name_def)
    ultimately show ?thesis using meta Nil fs1 by (simp add: main_with_def)
  next
    case (Cons kr rest)
    obtain k r where kr: "kr = (k, r)" by (cases kr)
    have key: "map_of (file_info st1) k = Some r" using Cons kr by simp
    from metadata_covers[OF meta key] obtain x where
      x: "map_of (exif_dic st1) (fst (splitext k)) = Some x" by auto
    have "classify_exif_file mv k ?st0 =
            Raise RuntimeError (?st0\<lparr>out := out ?st0 @ [UnsupportedMode (cfg_exif_mode cfg)]\<rparr>)"
      using x key m0 m1 m2 mode1 by (simp add: classify_exif_file_def Let_def)
    then have "classify_exif mv st1 =
        Inl (RuntimeError, st1\<lparr>out := [SelectMode (cfg_exif_mode cfg),
                                         UnsupportedMode (cfg_exif_mode cfg)]\<rparr>)"
      using cx Cons kr by simp
    then show ?thesis using meta Cons fs1 by (simp add: main_with_def)
  qed
qed

text \<open>The run of the photo under mode \<open>"2"\<close>.\<close>

theorem unsupported_mode_aborts_at_first_file_witness:
  "get_exif_metadata (get_file_info (init_info (policy True ''2'') fs_one))
     = Inr (final_state (get_exif_metadata (get_file_info (init_info (policy True ''2'') fs_one)))) \<and>
   fs (final_state (main_with shutil_move (policy True ''2'') fs_one)) = fs_one \<and>
   out (final_state (main_with shutil_move (policy True ''2'') fs_one))
     = [SelectMode ''2'', UnsupportedMode ''2''] \<and>
   (case main_with shutil_move (policy True ''2'') fs_one of
      Inl (e, st) \<Rightarrow> e = RuntimeError | Inr st \<Rightarrow> False)"
proof -
  let ?cfg = "policy True ''2''"
  let ?S1 = "final_state (get_exif_metadata (get_file_info (init_info ?cfg fs_one)))"
  have m0: "cfg_exif_mode ?cfg \<noteq> []" and m1: "cfg_exif_mode ?cfg \<noteq> ''0''"
    and m2: "cfg_exif_mode ?cfg \<noteq> ''1''" by (simp_all add: policy_def)
  have meta: "get_exif_metadata (get_file_info (init_info ?cfg fs_one)) = Inr ?S1"
    by code_simp
  have ne: "file_info ?S1 \<noteq> []" by code_simp
  from unsupported_mode_aborts_at_first_file[OF m0 m1 m2 meta, of shutil_move] ne
  have fs1: "fs ?S1 = fs_one" and
    run: "main_with shutil_move ?cfg fs_one =
      Inl (RuntimeError, ?S1\<lparr>out := [SelectMode (cfg_exif_mode ?cfg),
                                     UnsupportedMode (cfg_exif_mode ?cfg)]\<rparr>)"
    by simp_all
  have "cfg_exif_mode ?cfg = ''2''" by (simp add: policy_def)
  with run fs1 meta show ?thesis by simp
qed

text \<open>
  Claim C7 (every discovered file with an extension has a record of its own, also when
  files in different subfolders share a file name) against the code: the catalog is a
  dictionary keyed by the bare file name, and the assignment for a name found again
  replaces the record found first. The walk of \<open>fs_dup\<close> discovers \<open>d/a.jpg\<close> and
  \<open>d/sub/a.jpg\<close>; the catalog holds one record, for \<open>d/sub/a.jpg\<close>; and the
  extension-only run files that one and leaves \<open>d/a.jpg\<close> where it was, unclassified and
  unreported.
\<close>

theorem shared_filename_loses_a_file:
  "os_walk fs_dup [''d''] =
     [([''d''], [''sub''], [''a.jpg'']), ([''d'', ''sub''], [], [''a.jpg''])] \<and>
   file_info (get_file_info (init_info (policy True []) fs_dup)) =
     [(''a.jpg'', \<lparr>Name = ''a'', ext = ''jpg'', Path = [''d'', ''sub'', ''a.jpg''],
                  Folder = [''d'', ''sub'']\<rparr>)] \<and>
   (case main (policy True []) fs_dup of
      Inl a \<Rightarrow> False
    | Inr st \<Rightarrow>
        out st = [Moved ''a.jpg'' [''d'', ''sub'', ''a.jpg''] [''d'', ''sub'', ''jpg'', ''a.jpg''],
                  Finished] \<and>
        lookup (fs st) [''d'', ''a.jpg''] = Some photo \<and>
        lookup (fs st) [''d'', ''jpg'', ''a.jpg''] = None \<and>
        lookup (fs st) [''d'', ''sub'', ''jpg'', ''a.jpg''] = Some other_photo)"
  by code_simp

text \<open>
  Claim C8 (each pass updates both the path and the folder of a moved record) against the
  code: \<open>classify_exif\<close> assigns both, \<open>classify_expand_name\<close> assigns the path only. After
  the extension-only run of \<open>d/a.jpg\<close> the record's path is \<open>d/jpg/a.jpg\<close> and its folder
  is still \<open>d\<close>, which is not the directory of the path; and in every state, with every
  move primitive and however the pass ends, the extension pass leaves the folder of every
  record as it was.
\<close>

theorem extension_pass_leaves_folder_stale:
  "(case main (policy True []) fs_one of
      Inl a \<Rightarrow> False
    | Inr st \<Rightarrow>
        map_of (file_info st) ''a.jpg'' =
          Some \<lparr>Name = ''a'', ext = ''jpg'', Path = [''d'', ''jpg'', ''a.jpg''],
                Folder = [''d'']\<rparr> \<and>
        os_path_dirname [''d'', ''jpg'', ''a.jpg''] = [''d'', ''jpg'']) \<and>
   map_option Folder (map_of (file_info (final_state (classify_expand_name mv st))) f)
     = map_option Folder (map_of (file_info st) f)"
proof -
  have "(case main (policy True []) fs_one of
      Inl a \<Rightarrow> False
    | Inr st \<Rightarrow>
        map_of (file_info st) ''a.jpg'' =
          Some \<lparr>Name = ''a'', ext = ''jpg'', Path = [''d'', ''jpg'', ''a.jpg''],
                Folder = [''d'']\<rparr> \<and>
        os_path_dirname [''d'', ''jpg'', ''a.jpg''] = [''d'', ''jpg''])"
    by code_simp
  then show ?thesis
    by (simp add: classify_expand_name_def expand_loop_folder)
qed

text \<open>
  Claim C9 (a discovered file without extension is never in the catalog and never moved)
  against the code. The scan gives such a name no record, and no record or reported move
  appears for it later (\<open>no_extension_not_cataloged\<close>). But where a destination is
  occupied by a directory the file can be carried away: in \<open>fs_carry\<close> the walk discovers
  \<open>README\<close> in the directory \<open>d/CameraX/a.jpg\<close>; the EXIF pass moves the photo into
  that directory and records the directory's own path for it; the extension pass then
  moves that path, the directory, and \<open>README\<close> goes with it.
\<close>

theorem directory_move_carries_file:
  "snd (splitext ''README'') = [] \<and>
   os_walk fs_carry [''d''] =
     [([''d''], [''CameraX''], [''a.jpg'']),
      ([''d'', ''CameraX''], [''a.jpg''], []),
      ([''d'', ''CameraX'', ''a.jpg''], [], [''README''])] \<and>
   lookup fs_carry [''d'', ''CameraX'', ''a.jpg'', ''README''] = Some (File []) \<and>
   (case main (policy True ''0'') fs_carry of
      Inl a \<Rightarrow> False
    | Inr st \<Rightarrow>
        out st = [SelectMode ''0'',
                  Moved ''a.jpg'' [''d'', ''a.jpg''] [''d'', ''CameraX'', ''a.jpg''],
                  Moved ''a.jpg'' [''d'', ''CameraX'', ''a.jpg'']
                    [''d'', ''CameraX'', ''jpg'', ''a.jpg''],
                  Finished] \<and>
        lookup (fs st) [''d'', ''CameraX'', ''a.jpg'', ''README''] = None \<and>
        lookup (fs st) [''d'', ''CameraX'', ''jpg'', ''a.jpg'', ''README''] = Some (File []) \<and>
        lookup (fs st) [''d'', ''CameraX'', ''jpg'', ''a.jpg'', ''a.jpg''] = Some photo)"
  by code_simp

text \<open>
  Claim C10. The name \<open>camera_model_folder\<close> is bound in no mode. Whenever the EXIF pass
  reaches a file whose move raises \<open>FileExistsError\<close> (the files before it processed, the
  destination folder created), the handler raises \<open>NameError\<close>: the run ends there, with
  the state reached before that move, and neither the message nor any later file follows.
\<close>

theorem exists_handler_raises_name_error:
  assumes meta: "get_exif_metadata (get_file_info (init_info cfg fs0)) = Inr st"
    and mode: "cfg_exif_mode cfg = ''0'' \<or> cfg_exif_mode cfg = ''1''"
    and keys: "map fst (file_info st) = before @ file # rest"
    and pre: "classify_exif_loop mv before
                (st\<lparr>out := out st @ [SelectMode (cfg_exif_mode cfg)]\<rparr>) = Inr st1"
    and entry: "map_of (file_info st1) file = Some r"
    and exif: "map_of (exif_dic st1) (fst (splitext file)) = Some x"
    and mk: "os_makedirs (fs st1) (exif_folder (cfg_exif_mode cfg) x r) = Inr fs1"
    and clash: "mv fs1 (Path r) (os_path_join (exif_folder (cfg_exif_mode cfg) x r) file)
                  = Inl FileExistsError"
  shows "\<not> name_bound m ''camera_model_folder'' \<and>
         main_with mv cfg fs0 = Inl (NameError, st1\<lparr>fs := fs1\<rparr>)"
proof -
  note nb = camera_model_folder_unbound
  note fr = metadata_frame[OF meta]
  have mode0: "exif_classify_mode st = cfg_exif_mode cfg"
    using fr scan_state[of cfg fs0] by simp
  let ?st0 = "st\<lparr>out := out st @ [SelectMode (cfg_exif_mode cfg)]\<rparr>"
  have ne: "exif_classify_mode ?st0 \<noteq> []" using mode mode0 by auto
  from exif_loop_frame[of mv before ?st0] pre
  have mode1: "exif_classify_mode st1 = cfg_exif_mode cfg" using mode0 by simp
  have "classify_exif mv st = classify_exif_loop mv (before @ file # rest) ?st0"
    using ne mode0 keys by (simp add: classify_exif_def)
  also have "\<dots> = classify_exif_loop mv (file # rest) st1"
    by (rule exif_loop_append[OF pre ne])
  also have "classify_exif_file mv file st1 = Raise NameError (st1\<lparr>fs := fs1\<rparr>)"
    using entry exif mk clash mode mode1 nb[of "cfg_exif_mode cfg"]
    by (auto simp: classify_exif_file_def Let_def exif_folder_def exif_segment_def)
  then have "classify_exif_loop mv (file # rest) st1 = Inl (NameError, st1\<lparr>fs := fs1\<rparr>)"
    by simp
  finally have "classify_exif mv st = Inl (NameError, st1\<lparr>fs := fs1\<rparr>)" .
  with meta nb[of m] show ?thesis by (simp add: main_with_def)
qed

text \<open>
  With a move primitive that refuses an occupied destination, the photo whose destination
  is taken by a directory ends the run.
\<close>

theorem exists_handler_raises_name_error_witness:
  "exclusive_move fs_dir_clash [''d'', ''a.jpg''] [''d'', ''CameraX'', ''a.jpg'']
     = Inl FileExistsError \<and>
   \<not> name_bound ''0'' ''camera_model_folder'' \<and>
   (case main_with exclusive_move (policy True ''0'') fs_dir_clash of
      Inl (e, st) \<Rightarrow>
        e = NameError \<and> out st = [SelectMode ''0''] \<and> fs st = fs_dir_clash
    | Inr st \<Rightarrow> False)"
proof -
  let ?cfg = "policy True ''0''"
  let ?st = "final_state (get_exif_metadata (get_file_info (init_info ?cfg fs_dir_clash)))"
  let ?st1 = "?st\<lparr>out := out ?st @ [SelectMode (cfg_exif_mode ?cfg)]\<rparr>"
  let ?r = "\<lparr>Name = ''a'', ext = ''jpg'', Path = [''d'', ''a.jpg''], Folder = [''d'']\<rparr>"
  let ?x = "\<lparr>Type = ''jpg'', Date = ''2024-05-01'', Time = ''10:20:30'',
             CameraModel = ''CameraX'', ISO = ''ISO100'', Shutter = ''1/200s'',
             Aperture = ''f2.8''\<rparr>"
  have meta: "get_exif_metadata (get_file_info (init_info ?cfg fs_dir_clash)) = Inr ?st"
    by code_simp
  have mode: "cfg_exif_mode ?cfg = ''0'' \<or> cfg_exif_mode ?cfg = ''1''"
    by (simp add: policy_def)
  have keys: "map fst (file_info ?st) = [] @ ''a.jpg'' # []" by code_simp
  have pre: "classify_exif_loop exclusive_move [] ?st1 = Inr ?st1" by simp
  have entry: "map_of (file_info ?st1) ''a.jpg'' = Some ?r" by code_simp
  have exif: "map_of (exif_dic ?st1) (fst (splitext ''a.jpg'')) = Some ?x" by code_simp
  have mk: "os_makedirs (fs ?st1) (exif_folder (cfg_exif_mode ?cfg) ?x ?r) = Inr fs_dir_clash"
    by code_simp
  have clash: "exclusive_move fs_dir_clash (Path ?r)
      (os_path_join (exif_folder (cfg_exif_mode ?cfg) ?x ?r) ''a.jpg'') = Inl FileExistsError"
    by code_simp
  have c0: "exclusive_move fs_dir_clash [''d'', ''a.jpg''] [''d'', ''CameraX'', ''a.jpg'']
     = Inl FileExistsError" by code_simp
  have o: "out ?st = []" by code_simp
  from exists_handler_raises_name_error[OF meta mode keys pre entry exif mk clash, of "''0''"]
  have nb: "\<not> name_bound ''0'' ''camera_model_folder''"
    and run: "main_with exclusive_move ?cfg fs_dir_clash
                = Inl (NameError, ?st1\<lparr>fs := fs_dir_clash\<rparr>)"
    by simp_all
  have "cfg_exif_mode ?cfg = ''0''" by (simp add: policy_def)
  with c0 nb run o show ?thesis by simp
qed

end
